theory Spec2Isabelle
  imports Main
begin

section \<open>JavaScript strings and values\<close>

text \<open>
  A JavaScript string is modelled as a \<^typ>\<open>string\<close>. The model covers ASCII text: case
  mapping touches the letters a-z and A-Z only, and whitespace is the ASCII whitespace.
  The two non-ASCII literals of the source (an em dash and an ellipsis) are held as their
  UTF-8 bytes.
\<close>

definition asciiLower :: string where
  "asciiLower = ''abcdefghijklmnopqrstuvwxyz''"

definition asciiUpper :: string where
  "asciiUpper = ''ABCDEFGHIJKLMNOPQRSTUVWXYZ''"

definition toUpperChar :: "char \<Rightarrow> char" where
  "toUpperChar c = (case map_of (zip asciiLower asciiUpper) c of Some u \<Rightarrow> u | None \<Rightarrow> c)"

definition toLowerChar :: "char \<Rightarrow> char" where
  "toLowerChar c = (case map_of (zip asciiUpper asciiLower) c of Some l \<Rightarrow> l | None \<Rightarrow> c)"

definition toUpperCase :: "string \<Rightarrow> string" where
  "toUpperCase s = map toUpperChar s"

definition toLowerCase :: "string \<Rightarrow> string" where
  "toLowerCase s = map toLowerChar s"

definition isSpaceChar :: "char \<Rightarrow> bool" where
  "isSpaceChar c = (c \<in> set [CHR 0x09, CHR 0x0A, CHR 0x0B, CHR 0x0C, CHR 0x0D, CHR '' ''])"

text \<open>\<^verbatim>\<open>s.trim()\<close>\<close>

definition trim :: "string \<Rightarrow> string" where
  "trim s = rev (dropWhile isSpaceChar (rev (dropWhile isSpaceChar s)))"

text \<open>\<^verbatim>\<open>s.endsWith(suffix)\<close>\<close>

definition endsWith :: "string \<Rightarrow> string \<Rightarrow> bool" where
  "endsWith s suffix = (length suffix \<le> length s \<and> drop (length s - length suffix) s = suffix)"

text \<open>\<^verbatim>\<open>s.slice(0, -n)\<close> for a positive n: the string without its last n characters.\<close>

definition sliceOff :: "string \<Rightarrow> nat \<Rightarrow> string" where
  "sliceOff s n = take (length s - n) s"

text \<open>\<^verbatim>\<open>s.split(c)\<close> for a one-character separator: never the empty list.\<close>

fun split :: "char \<Rightarrow> string \<Rightarrow> string list" where
  "split c [] = [[]]"
| "split c (x # xs) =
     (if x = c then [] # split c xs
      else (case split c xs of [] \<Rightarrow> [[x]] | p # ps \<Rightarrow> (x # p) # ps))"

text \<open>
  The values a request or response body can hold. Numbers are integers in the model.
\<close>

datatype jsval =
    JUndefined
  | JNull
  | JBool bool
  | JNum int
  | JStr string
  | JArr "jsval list"
  | JObj "(string \<times> jsval) list"

text \<open>Truthiness, as \<^verbatim>\<open>if (v)\<close> and \<^verbatim>\<open>v && ...\<close> test it.\<close>

fun truthy :: "jsval \<Rightarrow> bool" where
  "truthy JUndefined = False"
| "truthy JNull = False"
| "truthy (JBool b) = b"
| "truthy (JNum n) = (n \<noteq> 0)"
| "truthy (JStr s) = (s \<noteq> [])"
| "truthy (JArr xs) = True"
| "truthy (JObj kvs) = True"

text \<open>\<^verbatim>\<open>v != null\<close>: neither null nor undefined.\<close>

fun notNullish :: "jsval \<Rightarrow> bool" where
  "notNullish JUndefined = False"
| "notNullish JNull = False"
| "notNullish v = True"

text \<open>
  Property read \<^verbatim>\<open>v.k\<close> on a value that is not nullish, for the keys the source reads
  (none of them is a built-in property of a string, a number or an array).
\<close>

fun getProp :: "jsval \<Rightarrow> string \<Rightarrow> jsval" where
  "getProp (JObj kvs) k = (case map_of kvs k of Some v \<Rightarrow> v | None \<Rightarrow> JUndefined)"
| "getProp v k = JUndefined"

text \<open>
  What the source takes from its surroundings: the runtime's \<^verbatim>\<open>JSON.stringify\<close>
  (\<open>None\<close> when it throws, or returns no string, so that reading its length throws) and
  \<^verbatim>\<open>String(v)\<close>; the application's database module, which may fail to load or to give
  a connection; and the event store, which accepts an insert or rejects it with an error.
\<close>

datatype error = Thrown string

record 'row env =
  stringify :: "jsval \<Rightarrow> string option"
  toStringJS :: "jsval \<Rightarrow> string"
  getDb :: "error option"
  rejects :: "'row \<Rightarrow> error option"

section \<open>The request-scoped audit context (audit-context)\<close>

record AuditRequestContext =
  ctx_correlationId :: string
  ctx_packName :: string
  ctx_method :: string
  ctx_path :: string
  ctx_actorId :: "string option"
  ctx_ipAddress :: "string option"
  ctx_userAgent :: "string option"
  auditWrites :: nat

text \<open>
  \<^verbatim>\<open>als.getStore()\<close> is the context of the running request, or nothing outside
  \<^verbatim>\<open>withAuditContext\<close>: an \<^typ>\<open>AuditRequestContext option\<close>, passed explicitly.
\<close>

definition getAuditContext :: "AuditRequestContext option \<Rightarrow> AuditRequestContext option" where
  "getAuditContext store = store"

definition getAuditWrites :: "AuditRequestContext option \<Rightarrow> nat" where
  "getAuditWrites store = (case store of None \<Rightarrow> 0 | Some c \<Rightarrow> auditWrites c)"

definition markAuditWrite :: "AuditRequestContext option \<Rightarrow> AuditRequestContext option" where
  "markAuditWrite store =
     (case store of None \<Rightarrow> None | Some c \<Rightarrow> Some (c\<lparr>auditWrites := auditWrites c + 1\<rparr>))"

text \<open>
  \<^verbatim>\<open>withAuditContext(meta, fn)\<close> runs \<open>fn\<close> with a fresh context whose counter is 0.
\<close>

definition withAuditContext ::
  "AuditRequestContext \<Rightarrow> (AuditRequestContext option \<Rightarrow> 'a) \<Rightarrow> 'a" where
  "withAuditContext meta fn = fn (Some (meta\<lparr>auditWrites := 0\<rparr>))"

section \<open>The event store and the strict write path (write-audit)\<close>

datatype actor_type = ActorUser | ActorSystem | ActorApi

datatype audit_outcome = OutcomeSuccess | OutcomeFailure | OutcomeDenied | OutcomeError

text \<open>
  A row of \<^verbatim>\<open>audit_events\<close> as an insert gives it: \<open>id\<close> and \<open>createdAt\<close> are the
  database's defaults and are left out; a nullable column is an option.
\<close>

record audit_row =
  entityKind :: string
  entityId :: "string option"
  action :: string
  summary :: string
  details :: "jsval option"
  changes :: "jsval option"
  eventType :: "string option"
  outcome :: "audit_outcome option"
  targetKind :: "string option"
  targetId :: "string option"
  targetName :: "string option"
  sessionId :: "string option"
  authMethod :: "string option"
  mfaMethod :: "string option"
  errorCode :: "string option"
  errorMessage :: "string option"
  actorId :: "string option"
  actorName :: "string option"
  actorType :: actor_type
  correlationId :: "string option"
  packName :: "string option"
  httpMethod :: "string option"
  path :: "string option"
  ipAddress :: "string option"
  userAgent :: "string option"

text \<open>
  The input of \<^verbatim>\<open>writeAuditEvent\<close>: an optional field is \<open>None\<close> when it is omitted
  (undefined) or null.
\<close>

record WriteAuditEventInput =
  in_entityKind :: string
  in_entityId :: "string option"
  in_action :: string
  in_summary :: string
  in_details :: "jsval option"
  in_changes :: "jsval option"
  in_eventType :: "string option"
  in_outcome :: "audit_outcome option"
  in_targetKind :: "string option"
  in_targetId :: "string option"
  in_targetName :: "string option"
  in_sessionId :: "string option"
  in_authMethod :: "string option"
  in_mfaMethod :: "string option"
  in_errorCode :: "string option"
  in_errorMessage :: "string option"
  in_actorId :: string
  in_actorName :: "string option"
  in_actorType :: "actor_type option"
  in_correlationId :: "string option"
  in_packName :: "string option"
  in_method :: "string option"
  in_path :: "string option"
  in_ipAddress :: "string option"
  in_userAgent :: "string option"

text \<open>
  What a call can change: the context of the running request, the rows of the event store
  (in insertion order) and the console.
\<close>

record world =
  als :: "AuditRequestContext option"
  events :: "audit_row list"
  console :: "string list"

text \<open>\<^verbatim>\<open>await db.insert(auditEvents).values(row)\<close>: the row is appended, or the insert rejects.\<close>

definition dbInsert :: "audit_row env \<Rightarrow> audit_row \<Rightarrow> world \<Rightarrow> error + world" where
  "dbInsert e row w =
     (case rejects e row of
        Some err \<Rightarrow> Inl err
      | None \<Rightarrow> Inr (w\<lparr>events := events w @ [row]\<rparr>))"

text \<open>\<^verbatim>\<open>a ?? ctx?.f ?? null\<close>\<close>

definition orCtx :: "'a option \<Rightarrow> AuditRequestContext option \<Rightarrow> (AuditRequestContext \<Rightarrow> 'a option) \<Rightarrow> 'a option" where
  "orCtx a ctx f = (case a of Some v \<Rightarrow> Some v | None \<Rightarrow> (case ctx of None \<Rightarrow> None | Some c \<Rightarrow> f c))"

definition writeAuditEventRow :: "AuditRequestContext option \<Rightarrow> WriteAuditEventInput \<Rightarrow> audit_row" where
  "writeAuditEventRow ctx input =
     (let eventType =
            (case in_eventType input of
               Some t \<Rightarrow> if trim t \<noteq> [] then trim t else in_action input
             | None \<Rightarrow> in_action input)
      in \<lparr> entityKind = in_entityKind input,
           entityId = in_entityId input,
           action = in_action input,
           summary = in_summary input,
           details = in_details input,
           changes = in_changes input,
           eventType = Some eventType,
           outcome = in_outcome input,
           targetKind = in_targetKind input,
           targetId = in_targetId input,
           targetName = in_targetName input,
           sessionId = in_sessionId input,
           authMethod = in_authMethod input,
           mfaMethod = in_mfaMethod input,
           errorCode = in_errorCode input,
           errorMessage = in_errorMessage input,
           actorId = Some (in_actorId input),
           actorName = in_actorName input,
           actorType = (case in_actorType input of Some t \<Rightarrow> t | None \<Rightarrow> ActorUser),
           correlationId = orCtx (in_correlationId input) ctx (\<lambda>c. Some (ctx_correlationId c)),
           packName = orCtx (in_packName input) ctx (\<lambda>c. Some (ctx_packName c)),
           httpMethod = orCtx (in_method input) ctx (\<lambda>c. Some (ctx_method c)),
           path = orCtx (in_path input) ctx (\<lambda>c. Some (ctx_path c)),
           ipAddress = orCtx (in_ipAddress input) ctx ctx_ipAddress,
           userAgent = orCtx (in_userAgent input) ctx ctx_userAgent \<rparr>)"

text \<open>
  \<^verbatim>\<open>writeAuditEvent(dbOrTx, input)\<close>: \<open>Inl\<close> is the rejected promise, with the error of
  the insert; the counter is marked after the insert has resolved.
\<close>

definition writeAuditEvent :: "audit_row env \<Rightarrow> WriteAuditEventInput \<Rightarrow> world \<Rightarrow> (error + unit) \<times> world" where
  "writeAuditEvent e input w =
     (let ctx = getAuditContext (als w) in
      case dbInsert e (writeAuditEventRow ctx input) w of
        Inl err \<Rightarrow> (Inl err, w)
      | Inr w1 \<Rightarrow> (Inr (), w1\<lparr>als := markAuditWrite (als w1)\<rparr>))"

section \<open>The automatic deriver (auto-audit)\<close>

text \<open>\<^verbatim>\<open>methodToAction\<close> of the deriver that logs failures as well.\<close>

definition methodToAction :: "string \<Rightarrow> string" where
  "methodToAction m =
     (let u = toUpperCase m in
      if u = ''GET'' then ''read''
      else if u = ''POST'' then ''created''
      else if u = ''PUT'' \<or> u = ''PATCH'' then ''updated''
      else if u = ''DELETE'' then ''deleted''
      else toLowerCase m)"

text \<open>\<^verbatim>\<open>methodToAction\<close> of the earlier deriver, which has no case for GET.\<close>

definition methodToAction_v1 :: "string \<Rightarrow> string" where
  "methodToAction_v1 m =
     (let u = toUpperCase m in
      if u = ''POST'' then ''created''
      else if u = ''PUT'' \<or> u = ''PATCH'' then ''updated''
      else if u = ''DELETE'' then ''deleted''
      else toLowerCase m)"

definition singularize :: "string \<Rightarrow> string" where
  "singularize word =
     (if endsWith word ''ies'' then sliceOff word 3 @ ''y''
      else if endsWith word ''ses'' \<or> endsWith word ''xes'' \<or> endsWith word ''zes''
        then sliceOff word 2
      else if endsWith word ''s'' \<and> \<not> endsWith word ''ss'' then sliceOff word 1
      else word)"

definition isHexDigit :: "char \<Rightarrow> bool" where
  "isHexDigit c = (c \<in> set ''0123456789abcdefABCDEF'')"

definition isDigit :: "char \<Rightarrow> bool" where
  "isDigit c = (c \<in> set ''0123456789'')"

definition hexGroup :: "nat \<Rightarrow> string \<Rightarrow> bool" where
  "hexGroup n g = (length g = n \<and> list_all isHexDigit g)"

text \<open>
  \<^verbatim>\<open>/^[0-9a-f]{8}-[0-9a-f]{4}-[0-9a-f]{4}-[0-9a-f]{4}-[0-9a-f]{12}$/i\<close>: five groups of
  hexadecimal digits of the lengths 8, 4, 4, 4 and 12, separated by dashes.
\<close>

definition uuidPattern :: "string \<Rightarrow> bool" where
  "uuidPattern s =
     (case split CHR ''-'' s of
        [a, b, c, d, e] \<Rightarrow> hexGroup 8 a \<and> hexGroup 4 b \<and> hexGroup 4 c \<and> hexGroup 4 d \<and> hexGroup 12 e
      | _ \<Rightarrow> False)"

text \<open>\<^verbatim>\<open>/^\d+$/\<close>\<close>

definition numericPattern :: "string \<Rightarrow> bool" where
  "numericPattern s = (s \<noteq> [] \<and> list_all isDigit s)"

text \<open>\<^verbatim>\<open>path.replace(/^\/api\//, '')\<close>\<close>

definition stripApiPrefix :: "string \<Rightarrow> string" where
  "stripApiPrefix p = (if take 5 p = ''/api/'' then drop 5 p else p)"

text \<open>The result \<^verbatim>\<open>{ kind, id }\<close> is the pair of the kind and the id (\<open>None\<close> for null).\<close>

definition extractEntityFromPath :: "string \<Rightarrow> string \<times> string option" where
  "extractEntityFromPath p =
     (let cleaned = stripApiPrefix p;
          segments = filter (\<lambda>s. s \<noteq> []) (split CHR ''/'' cleaned)
      in if length segments = 0 then (''unknown'', None)
         else
           let pathSegments = drop 1 segments in
           if length pathSegments = 0 then (segments ! 0, None)
           else
             let lastSegment = pathSegments ! (length pathSegments - 1) in
             if uuidPattern lastSegment \<or> numericPattern lastSegment then
               (if length pathSegments \<ge> 2
                then (singularize (pathSegments ! (length pathSegments - 2)), Some lastSegment)
                else (segments ! 0, Some lastSegment))
             else (singularize lastSegment, None))"

text \<open>\<^verbatim>\<open>if (entityId)\<close>: neither null nor the empty string.\<close>

definition hasText :: "string option \<Rightarrow> bool" where
  "hasText x = (case x of None \<Rightarrow> False | Some s \<Rightarrow> s \<noteq> [])"

definition buildSummary :: "string \<Rightarrow> string \<Rightarrow> string option \<Rightarrow> string \<Rightarrow> string" where
  "buildSummary act kind eid pack =
     (let actionVerb = toUpperCase (take 1 act) @ drop 1 act in
      case eid of
        Some i \<Rightarrow>
          if i \<noteq> [] then actionVerb @ '' '' @ kind @ '' ('' @ i @ '')''
          else actionVerb @ '' '' @ kind
      | None \<Rightarrow> actionVerb @ '' '' @ kind)"

definition truncatePayload :: "'r env \<Rightarrow> jsval \<Rightarrow> nat \<Rightarrow> jsval" where
  "truncatePayload e payload maxLength =
     (if payload = JNull \<or> payload = JUndefined then JNull
      else
        (case stringify e payload of
           None \<Rightarrow> JObj [(''_error'', JStr ''Could not serialize payload'')]
         | Some str \<Rightarrow>
             if length str \<le> maxLength then payload
             else JObj [(''_truncated'', JBool True),
                        (''_originalLength'', JNum (int (length str))),
                        (''_preview'', JStr (take maxLength str))]))"

definition ellipsis :: string where
  "ellipsis = [CHR 0xE2, CHR 0x80, CHR 0xA6]"

definition emDash :: string where
  "emDash = [CHR 0xE2, CHR 0x80, CHR 0x94]"

definition truncateText :: "string \<Rightarrow> nat \<Rightarrow> string" where
  "truncateText s maxLength =
     (let trimmed = trim s in
      if length trimmed \<le> maxLength then trimmed
      else take (maxLength - 1) trimmed @ ellipsis)"

text \<open>The loop over the candidates: the first one that is a string with text, trimmed.\<close>

fun firstText :: "jsval list \<Rightarrow> string option" where
  "firstText [] = None"
| "firstText (JStr s # cs) = (if trim s \<noteq> [] then Some (trim s) else firstText cs)"
| "firstText (c # cs) = firstText cs"

fun extractErrorHint :: "'r env \<Rightarrow> jsval \<Rightarrow> string option" where
  "extractErrorHint e JUndefined = None"
| "extractErrorHint e JNull = None"
| "extractErrorHint e (JStr s) = (if trim s \<noteq> [] then Some (trim s) else None)"
| "extractErrorHint e (JBool b) = Some (toStringJS e (JBool b))"
| "extractErrorHint e (JNum n) = Some (toStringJS e (JNum n))"
| "extractErrorHint e obj =
     firstText [getProp obj ''error'', getProp obj ''message'', getProp obj ''detail'',
                getProp (getProp obj ''exception'') ''message'',
                getProp (getProp obj ''exception'') ''name'']"

record SlowQueryRecord =
  sq_sql :: string
  sq_durationMs :: int

record AutoAuditInput =
  responseStatus :: int
  responseBody :: jsval
  requestBody :: jsval
  durationMs :: "int option"
  auto_actorId :: "string option"
  dbTimeMs :: "int option"
  moduleTimeMs :: "int option"
  slowQueries :: "SlowQueryRecord list option"

definition writeMethods :: "string list" where
  "writeMethods = [''POST'', ''PUT'', ''PATCH'', ''DELETE'']"

definition isSuccess :: "int \<Rightarrow> bool" where
  "isSuccess st = (st \<ge> 200 \<and> st < 300)"

definition isClientError :: "int \<Rightarrow> bool" where
  "isClientError st = (st \<ge> 400 \<and> st < 500)"

text \<open>The action of the derived event: \<open>m\<close> is the upper-cased method of the context.\<close>

definition autoAction :: "string \<Rightarrow> int \<Rightarrow> string" where
  "autoAction m st =
     (let act = methodToAction m in
      if \<not> isSuccess st then (if isClientError st then act @ ''_rejected'' else act @ ''_failed'')
      else act)"

text \<open>The id a successful POST returns, when the path gave none.\<close>

definition autoEntityId :: "string \<Rightarrow> string option \<Rightarrow> AutoAuditInput \<Rightarrow> string option" where
  "autoEntityId m eid input =
     (if m = ''POST'' \<and> \<not> hasText eid \<and> truthy (responseBody input) \<and> isSuccess (responseStatus input)
      then (case getProp (responseBody input) ''id'' of
              JStr s \<Rightarrow> if s \<noteq> [] then Some s else eid
            | _ \<Rightarrow> eid)
      else eid)"

definition slowQueryJson :: "SlowQueryRecord \<Rightarrow> jsval" where
  "slowQueryJson q = JObj [(''sql'', JStr (sq_sql q)), (''durationMs'', JNum (sq_durationMs q))]"

text \<open>The \<^verbatim>\<open>details\<close> object, its keys in the order the source assigns them.\<close>

definition autoDetails :: "'r env \<Rightarrow> AutoAuditInput \<Rightarrow> jsval" where
  "autoDetails e input =
     JObj
       ([(''responseStatus'', JNum (responseStatus input)),
         (''durationMs'', (case durationMs input of Some d \<Rightarrow> JNum d | None \<Rightarrow> JNull)),
         (''success'', JBool (isSuccess (responseStatus input)))]
        @ (case dbTimeMs input of Some t \<Rightarrow> [(''dbTimeMs'', JNum t)] | None \<Rightarrow> [])
        @ (case moduleTimeMs input of Some t \<Rightarrow> [(''moduleTimeMs'', JNum t)] | None \<Rightarrow> [])
        @ (case slowQueries input of
             Some qs \<Rightarrow>
               if length qs > 0
               then [(''slowQueries'',
                      JArr (map slowQueryJson (take 5 (sort_key (\<lambda>q. - sq_durationMs q) qs))))]
               else []
           | None \<Rightarrow> [])
        @ (if notNullish (requestBody input)
           then [(''requestBody'', truncatePayload e (requestBody input) 4000)] else [])
        @ (if notNullish (responseBody input)
           then [(''responseBody'', truncatePayload e (responseBody input) 4000)] else [])
        @ (case durationMs input of
             Some d \<Rightarrow> if d \<noteq> 0 \<and> d > 500 then [(''isSlow'', JBool True)] else []
           | None \<Rightarrow> []))"

definition autoSummary :: "'r env \<Rightarrow> string \<Rightarrow> string \<Rightarrow> string option \<Rightarrow> AuditRequestContext \<Rightarrow> AutoAuditInput \<Rightarrow> string" where
  "autoSummary e act kind eid ctx input =
     (let s = buildSummary act kind eid (ctx_packName ctx) in
      if \<not> isSuccess (responseStatus input) then
        (case extractErrorHint e (responseBody input) of
           Some hint \<Rightarrow> if hint \<noteq> [] then s @ '' '' @ emDash @ '' '' @ truncateText hint 160 else s
         | None \<Rightarrow> s)
      else s)"

text \<open>
  The row the deriver inserts; \<open>m\<close> is the upper-cased method of the context. The columns
  its table definition does not know keep the database's default, null.
\<close>

definition autoAuditRow :: "'r env \<Rightarrow> AuditRequestContext \<Rightarrow> string \<Rightarrow> AutoAuditInput \<Rightarrow> audit_row" where
  "autoAuditRow e ctx m input =
     (let act = autoAction m (responseStatus input);
          ent = extractEntityFromPath (ctx_path ctx);
          eid = autoEntityId m (snd ent) input
      in \<lparr> entityKind = fst ent,
           entityId = eid,
           action = act,
           summary = autoSummary e act (fst ent) eid ctx input,
           details = Some (autoDetails e input),
           changes = None,
           eventType = None,
           outcome = None,
           targetKind = None,
           targetId = None,
           targetName = None,
           sessionId = None,
           authMethod = None,
           mfaMethod = None,
           errorCode = None,
           errorMessage = None,
           actorId = Some (case auto_actorId input of
                             Some a \<Rightarrow> a
                           | None \<Rightarrow> (case ctx_actorId ctx of Some a \<Rightarrow> a | None \<Rightarrow> ''system'')),
           actorName = None,
           actorType = ActorUser,
           correlationId = Some (ctx_correlationId ctx),
           packName = Some (ctx_packName ctx),
           httpMethod = Some (ctx_method ctx),
           path = Some (ctx_path ctx),
           ipAddress = ctx_ipAddress ctx,
           userAgent = ctx_userAgent ctx \<rparr>)"

text \<open>
  The body of the \<^verbatim>\<open>try\<close> block: \<open>Inl\<close> is what reaches the \<^verbatim>\<open>catch\<close>. The database
  module is loaded first; the counter is marked after the insert has resolved.
\<close>

definition autoTry :: "audit_row env \<Rightarrow> AuditRequestContext \<Rightarrow> string \<Rightarrow> AutoAuditInput \<Rightarrow> world \<Rightarrow> error + world" where
  "autoTry e ctx m input w =
     (case getDb e of
        Some err \<Rightarrow> Inl err
      | None \<Rightarrow>
          (case dbInsert e (autoAuditRow e ctx m input) w of
             Inl err \<Rightarrow> Inl err
           | Inr w1 \<Rightarrow> Inr (w1\<lparr>als := markAuditWrite (als w1)\<rparr>)))"

definition warnNoContext :: string where
  "warnNoContext = ''[auto-audit] No audit context available, skipping auto-audit''"

definition errorFailed :: string where
  "errorFailed = ''[auto-audit] Failed to write auto-audit event:''"

text \<open>
  \<^verbatim>\<open>writeAutoAuditEvent(input)\<close>: the first component is how the promise settles, \<open>Inr b\<close>
  when it resolves to the boolean \<open>b\<close> and \<open>Inl\<close> when it rejects.
\<close>

definition writeAutoAuditEvent :: "audit_row env \<Rightarrow> AutoAuditInput \<Rightarrow> world \<Rightarrow> (error + bool) \<times> world" where
  "writeAutoAuditEvent e input w =
     (case getAuditContext (als w) of
        None \<Rightarrow> (Inr False, w\<lparr>console := console w @ [warnNoContext]\<rparr>)
      | Some ctx \<Rightarrow>
          if auditWrites ctx > 0 then (Inr False, w)
          else
            let m = toUpperCase (ctx_method ctx) in
            if m = [] then (Inr False, w)
            else
              let isWrite = (m \<in> set writeMethods);
                  isError = (responseStatus input \<ge> 400)
              in if \<not> isWrite \<and> \<not> isError then (Inr False, w)
                 else
                   (case autoTry e ctx m input w of
                      Inr w1 \<Rightarrow> (Inr True, w1)
                    | Inl err \<Rightarrow> (Inr False, w\<lparr>console := console w @ [errorFailed]\<rparr>)))"

text \<open>The earlier deriver: successful write requests only, and no details.\<close>

definition autoAuditRow_v1 :: "AuditRequestContext \<Rightarrow> string \<Rightarrow> AutoAuditInput \<Rightarrow> audit_row" where
  "autoAuditRow_v1 ctx m input =
     (let act = methodToAction_v1 m;
          ent = extractEntityFromPath (ctx_path ctx);
          eid = (if m = ''POST'' \<and> \<not> hasText (snd ent) \<and> truthy (responseBody input)
                 then (case getProp (responseBody input) ''id'' of
                         JStr s \<Rightarrow> if s \<noteq> [] then Some s else snd ent
                       | _ \<Rightarrow> snd ent)
                 else snd ent)
      in \<lparr> entityKind = fst ent,
           entityId = eid,
           action = act,
           summary = buildSummary act (fst ent) eid (ctx_packName ctx),
           details = None,
           changes = None,
           eventType = None,
           outcome = None,
           targetKind = None,
           targetId = None,
           targetName = None,
           sessionId = None,
           authMethod = None,
           mfaMethod = None,
           errorCode = None,
           errorMessage = None,
           actorId = Some (case auto_actorId input of
                             Some a \<Rightarrow> a
                           | None \<Rightarrow> (case ctx_actorId ctx of Some a \<Rightarrow> a | None \<Rightarrow> ''system'')),
           actorName = None,
           actorType = ActorUser,
           correlationId = Some (ctx_correlationId ctx),
           packName = Some (ctx_packName ctx),
           httpMethod = Some (ctx_method ctx),
           path = Some (ctx_path ctx),
           ipAddress = ctx_ipAddress ctx,
           userAgent = ctx_userAgent ctx \<rparr>)"

definition autoTry_v1 :: "audit_row env \<Rightarrow> AuditRequestContext \<Rightarrow> string \<Rightarrow> AutoAuditInput \<Rightarrow> world \<Rightarrow> error + world" where
  "autoTry_v1 e ctx m input w =
     (case getDb e of
        Some err \<Rightarrow> Inl err
      | None \<Rightarrow>
          (case dbInsert e (autoAuditRow_v1 ctx m input) w of
             Inl err \<Rightarrow> Inl err
           | Inr w1 \<Rightarrow> Inr (w1\<lparr>als := markAuditWrite (als w1)\<rparr>)))"

definition writeAutoAuditEvent_v1 :: "audit_row env \<Rightarrow> AutoAuditInput \<Rightarrow> world \<Rightarrow> (error + bool) \<times> world" where
  "writeAutoAuditEvent_v1 e input w =
     (if responseStatus input < 200 \<or> responseStatus input \<ge> 300 then (Inr False, w)
      else
        (case getAuditContext (als w) of
           None \<Rightarrow> (Inr False, w\<lparr>console := console w @ [warnNoContext]\<rparr>)
         | Some ctx \<Rightarrow>
             if auditWrites ctx > 0 then (Inr False, w)
             else
               let m = toUpperCase (ctx_method ctx) in
               if m = [] \<or> m \<notin> set writeMethods then (Inr False, w)
               else
                 (case autoTry_v1 e ctx m input w of
                    Inr w1 \<Rightarrow> (Inr True, w1)
                  | Inl err \<Rightarrow> (Inr False, w\<lparr>console := console w @ [errorFailed]\<rparr>))))"

section \<open>The scope resolver (scope-mode)\<close>

datatype ScopeMode = ModeNone | ModeOwn | ModeLdd | ModeAny

fun modeName :: "ScopeMode \<Rightarrow> string" where
  "modeName ModeNone = ''none''"
| "modeName ModeOwn = ''own''"
| "modeName ModeLdd = ''ldd''"
| "modeName ModeAny = ''any''"

definition scopeModes :: "ScopeMode list" where
  "scopeModes = [ModeNone, ModeOwn, ModeLdd, ModeAny]"

text \<open>
  The loop over the modes. \<open>check key\<close> is \<^verbatim>\<open>(await checkAuditCoreAction(request, key)).ok\<close>
  for the request at hand; the keys probed so far are threaded through, in order.
\<close>

fun probeModes :: "(string \<Rightarrow> bool) \<Rightarrow> string \<Rightarrow> ScopeMode list \<Rightarrow> string list \<Rightarrow> ScopeMode option \<times> string list" where
  "probeModes check globalPrefix [] probed = (None, probed)"
| "probeModes check globalPrefix (m # ms) probed =
     (let key = globalPrefix @ ''.'' @ modeName m in
      if check key then (Some m, probed @ [key])
      else probeModes check globalPrefix ms (probed @ [key]))"

text \<open>The resolved mode, with the keys the permission check was asked, in order.\<close>

definition resolveAuditCoreScopeMode :: "(string \<Rightarrow> bool) \<Rightarrow> string \<Rightarrow> ScopeMode \<times> string list" where
  "resolveAuditCoreScopeMode check verb =
     (let globalPrefix = ''audit-core.'' @ verb @ ''.scope'' in
      case probeModes check globalPrefix scopeModes [] of
        (Some m, probed) \<Rightarrow> (m, probed)
      | (None, probed) \<Rightarrow> (ModeOwn, probed))"

section \<open>The scope predicate of the read API (GET /api/audit)\<close>

text \<open>
  Modelled from the spec: the organizational-assignment table \<^verbatim>\<open>userOrgAssignments\<close>,
  whose declaration is the consuming application's. A row assigns a user key a division,
  a department and a location, each nullable; these are the columns the query reads.
\<close>

record UserOrgAssignment =
  userKey :: string
  divisionId :: "string option"
  departmentId :: "string option"
  locationId :: "string option"

record ScopeIds =
  divisionIds :: "string list"
  departmentIds :: "string list"
  locationIds :: "string list"

text \<open>\<^verbatim>\<open>if (v && !ids.includes(v)) ids.push(v)\<close>\<close>

definition pushNew :: "string option \<Rightarrow> string list \<Rightarrow> string list" where
  "pushNew v ids =
     (case v of
        Some x \<Rightarrow> if x \<noteq> [] \<and> x \<notin> set ids then ids @ [x] else ids
      | None \<Rightarrow> ids)"

definition collectRow :: "ScopeIds \<Rightarrow> UserOrgAssignment \<Rightarrow> ScopeIds" where
  "collectRow acc r =
     \<lparr> divisionIds = pushNew (divisionId r) (divisionIds acc),
       departmentIds = pushNew (departmentId r) (departmentIds acc),
       locationIds = pushNew (locationId r) (locationIds acc) \<rparr>"

definition fetchUserOrgScopeIds :: "UserOrgAssignment list \<Rightarrow> string \<Rightarrow> ScopeIds" where
  "fetchUserOrgScopeIds tbl key =
     foldl collectRow \<lparr> divisionIds = [], departmentIds = [], locationIds = [] \<rparr>
       (filter (\<lambda>r. userKey r = key) tbl)"

datatype dimension = Division | Department | Location

fun dimId :: "dimension \<Rightarrow> UserOrgAssignment \<Rightarrow> string option" where
  "dimId Division r = divisionId r"
| "dimId Department r = departmentId r"
| "dimId Location r = locationId r"

text \<open>
  The conditions the handler builds for the scope: \<^verbatim>\<open>false\<close>, \<^verbatim>\<open>actor_id = u\<close>, the
  correlated \<^verbatim>\<open>exists\<close> over the assignments of the event's actor, and \<^verbatim>\<open>or\<close>.
\<close>

datatype cond =
    SqlFalse
  | EqActorId string
  | ExistsAssignmentIn dimension "string list"
  | Or cond cond

text \<open>
  Whether the store selects a row under a condition. A comparison with a null \<open>actor_id\<close>
  is not true, and neither is an \<^verbatim>\<open>in\<close> on a null column.
\<close>

fun holds :: "UserOrgAssignment list \<Rightarrow> audit_row \<Rightarrow> cond \<Rightarrow> bool" where
  "holds tbl ev SqlFalse = False"
| "holds tbl ev (EqActorId u) = (actorId ev = Some u)"
| "holds tbl ev (ExistsAssignmentIn d ids) =
     list_ex (\<lambda>r. Some (userKey r) = actorId ev \<and>
                   (case dimId d r of Some x \<Rightarrow> x \<in> set ids | None \<Rightarrow> False)) tbl"
| "holds tbl ev (Or a b) = (holds tbl ev a \<or> holds tbl ev b)"

text \<open>\<^verbatim>\<open>or(...conds)\<close>: nothing for no condition, the condition itself for one.\<close>

fun sqlOr :: "cond list \<Rightarrow> cond option" where
  "sqlOr [] = None"
| "sqlOr [c] = Some c"
| "sqlOr (c # cs) = (case sqlOr cs of Some d \<Rightarrow> Some (Or c d) | None \<Rightarrow> Some c)"

definition lddParts :: "ScopeIds \<Rightarrow> cond list" where
  "lddParts scopeIds =
     (if length (divisionIds scopeIds) > 0
      then [ExistsAssignmentIn Division (divisionIds scopeIds)] else [])
     @ (if length (departmentIds scopeIds) > 0
        then [ExistsAssignmentIn Department (departmentIds scopeIds)] else [])
     @ (if length (locationIds scopeIds) > 0
        then [ExistsAssignmentIn Location (locationIds scopeIds)] else [])"

text \<open>
  What the scope pushes on \<^verbatim>\<open>whereParts\<close>; \<open>sub\<close> is \<^verbatim>\<open>user.sub\<close>. The query selects
  the rows on which every part holds.
\<close>

definition scopeWhereParts :: "UserOrgAssignment list \<Rightarrow> ScopeMode \<Rightarrow> string \<Rightarrow> cond list" where
  "scopeWhereParts tbl mode sub =
     (case mode of
        ModeNone \<Rightarrow> [SqlFalse]
      | ModeOwn \<Rightarrow> (if sub \<noteq> [] then [EqActorId sub] else [SqlFalse])
      | ModeLdd \<Rightarrow>
          (let scopeIds = fetchUserOrgScopeIds tbl sub;
               ownCondition = (if sub \<noteq> [] then EqActorId sub else SqlFalse);
               parts = lddParts scopeIds
           in if length parts > 0
              then (case sqlOr parts of
                      Some l \<Rightarrow> [Or ownCondition l]
                    | None \<Rightarrow> [ownCondition])
              else [ownCondition])
      | ModeAny \<Rightarrow> [])"

definition selects :: "UserOrgAssignment list \<Rightarrow> cond list \<Rightarrow> audit_row \<Rightarrow> bool" where
  "selects tbl parts ev = list_all (holds tbl ev) parts"

section \<open>Notions and inputs of the properties\<close>

text \<open>
  The concrete requests, stores and tables at which the properties below are evaluated,
  and the notions they are stated with.
\<close>

definition envOk :: "audit_row env" where
  "envOk = \<lparr> stringify = (\<lambda>v. Some ''{}''), toStringJS = (\<lambda>v. ''0''), getDb = None,
             rejects = (\<lambda>r. None) \<rparr>"

definition envReject :: "audit_row env" where
  "envReject = \<lparr> stringify = (\<lambda>v. Some ''{}''), toStringJS = (\<lambda>v. ''0''), getDb = None,
                 rejects = (\<lambda>r. Some (Thrown ''insert failed'')) \<rparr>"

definition ctxPost :: AuditRequestContext where
  "ctxPost = \<lparr> ctx_correlationId = ''c-1'', ctx_packName = ''crm'', ctx_method = ''POST'',
     ctx_path = ''/api/crm/contacts'', ctx_actorId = Some ''u1'', ctx_ipAddress = None,
     ctx_userAgent = Some ''curl'', auditWrites = 0 \<rparr>"

definition inputMin :: WriteAuditEventInput where
  "inputMin = \<lparr> in_entityKind = ''contact'', in_entityId = Some ''42'', in_action = ''created'',
     in_summary = ''Created contact'', in_details = None, in_changes = None,
     in_eventType = Some ''  '', in_outcome = None, in_targetKind = None, in_targetId = None,
     in_targetName = None, in_sessionId = None, in_authMethod = None, in_mfaMethod = None,
     in_errorCode = None, in_errorMessage = None, in_actorId = ''u1'', in_actorName = None,
     in_actorType = None, in_correlationId = None, in_packName = Some ''sales'', in_method = None,
     in_path = None, in_ipAddress = None, in_userAgent = None \<rparr>"

definition worldPost :: world where
  "worldPost = \<lparr> als = Some ctxPost, events = [], console = [] \<rparr>"

definition inputCreated :: AutoAuditInput where
  "inputCreated = \<lparr> responseStatus = 201,
     responseBody = JObj [(''id'', JStr ''77''), (''name'', JStr ''Ann'')],
     requestBody = JObj [(''name'', JStr ''Ann'')],
     durationMs = Some 12, auto_actorId = None, dbTimeMs = None, moduleTimeMs = None,
     slowQueries = None \<rparr>"

definition envNoDb :: "audit_row env" where
  "envNoDb = \<lparr> stringify = (\<lambda>v. Some ''{}''), toStringJS = (\<lambda>v. ''0''),
               getDb = Some (Thrown ''no database''), rejects = (\<lambda>r. None) \<rparr>"

definition ctxGet :: AuditRequestContext where
  "ctxGet = \<lparr> ctx_correlationId = ''c-2'', ctx_packName = ''crm'', ctx_method = ''GET'',
     ctx_path = ''/api/crm/contacts/123'', ctx_actorId = None, ctx_ipAddress = None,
     ctx_userAgent = None, auditWrites = 0 \<rparr>"

definition worldGet :: world where
  "worldGet = \<lparr> als = Some ctxGet, events = [], console = [] \<rparr>"

definition worldNoContext :: world where
  "worldNoContext = \<lparr> als = None, events = [], console = [] \<rparr>"

definition inputNotFound :: AutoAuditInput where
  "inputNotFound = \<lparr> responseStatus = 404,
     responseBody = JObj [(''error'', JStr ''Not found'')],
     requestBody = JUndefined,
     durationMs = None, auto_actorId = None, dbTimeMs = None, moduleTimeMs = None,
     slowQueries = None \<rparr>"

definition inputServerError :: AutoAuditInput where
  "inputServerError = \<lparr> responseStatus = 500,
     responseBody = JNull,
     requestBody = JUndefined,
     durationMs = None, auto_actorId = None, dbTimeMs = None, moduleTimeMs = None,
     slowQueries = None \<rparr>"

definition ctxOptions :: AuditRequestContext where
  "ctxOptions = \<lparr> ctx_correlationId = ''c-3'', ctx_packName = ''crm'', ctx_method = ''Options'',
     ctx_path = ''/api/crm'', ctx_actorId = None, ctx_ipAddress = None,
     ctx_userAgent = None, auditWrites = 0 \<rparr>"

definition worldOptions :: world where
  "worldOptions = \<lparr> als = Some ctxOptions, events = [], console = [] \<rparr>"

definition envJson :: "audit_row env" where
  "envJson = \<lparr> stringify = (\<lambda>v. case v of
                                   JStr s \<Rightarrow> Some ([CHR 0x22] @ s @ [CHR 0x22])
                                 | JArr xs \<Rightarrow> None
                                 | _ \<Rightarrow> Some ''{}''),
               toStringJS = (\<lambda>v. ''0''), getDb = None, rejects = (\<lambda>r. None) \<rparr>"

definition inputBodies :: AutoAuditInput where
  "inputBodies = \<lparr> responseStatus = 200,
     responseBody = JStr ''ok'',
     requestBody = JStr (replicate 4000 CHR ''a''),
     durationMs = Some 501, auto_actorId = None, dbTimeMs = Some 3, moduleTimeMs = None,
     slowQueries = Some [\<lparr> sq_sql = ''select 1'', sq_durationMs = 2 \<rparr>] \<rparr>"

text \<open>The permission key the resolver asks for a verb and a mode.\<close>

definition scopeKey :: "string \<Rightarrow> ScopeMode \<Rightarrow> string" where
  "scopeKey verb m = ''audit-core.'' @ verb @ ''.scope.'' @ modeName m"

text \<open>A caller who is granted the modes none, own and any for reading.\<close>

definition grantsNoneOwnAny :: "string \<Rightarrow> bool" where
  "grantsNoneOwnAny key =
     (key \<in> set [''audit-core.read.scope.none'', ''audit-core.read.scope.own'',
                  ''audit-core.read.scope.any''])"

text \<open>A caller who is granted the modes own and any for reading.\<close>

definition grantsOwnAny :: "string \<Rightarrow> bool" where
  "grantsOwnAny key =
     (key \<in> set [''audit-core.read.scope.own'', ''audit-core.read.scope.any''])"

text \<open>The segments of a path, joined by slashes.\<close>

fun joinSlash :: "string list \<Rightarrow> string" where
  "joinSlash [] = []"
| "joinSlash [s] = s"
| "joinSlash (s # t # ts) = s @ CHR ''/'' # joinSlash (t # ts)"

text \<open>
  The segments the extraction works on: the path without a leading \<^verbatim>\<open>/api/\<close>, cut at
  the slashes, the empty pieces dropped.
\<close>

definition segmentsOf :: "string \<Rightarrow> string list" where
  "segmentsOf p = filter (\<lambda>s. s \<noteq> []) (split CHR ''/'' (stripApiPrefix p))"

text \<open>A segment that matches the UUID pattern or is purely numeric.\<close>

definition looksLikeId :: "string \<Rightarrow> bool" where
  "looksLikeId s = (uuidPattern s \<or> numericPattern s)"

text \<open>A path segment: not empty, and without a slash.\<close>

definition isSegment :: "string \<Rightarrow> bool" where
  "isSegment s = (s \<noteq> [] \<and> CHR ''/'' \<notin> set s)"

text \<open>
  Two assignment rows have a division, a department or a location in common. An id
  that is null or empty is no assignment: the handler skips such ids of the caller.
\<close>

definition sharesAssignment :: "UserOrgAssignment \<Rightarrow> UserOrgAssignment \<Rightarrow> bool" where
  "sharesAssignment ra rc =
     list_ex (\<lambda>d. case dimId d ra of Some x \<Rightarrow> x \<noteq> [] \<and> dimId d rc = Some x | None \<Rightarrow> False)
       [Division, Department, Location]"

text \<open>No row of the caller names a division, a department or a location.\<close>

definition hasNoAssignments :: "UserOrgAssignment list \<Rightarrow> string \<Rightarrow> bool" where
  "hasNoAssignments tbl sub =
     list_all (\<lambda>r. userKey r \<noteq> sub
                    \<or> (\<not> hasText (divisionId r) \<and> \<not> hasText (departmentId r)
                        \<and> \<not> hasText (locationId r))) tbl"

text \<open>An assignment table, and an event of a given actor.\<close>

definition orgTable :: "UserOrgAssignment list" where
  "orgTable =
     [\<lparr> userKey = ''u1'', divisionId = Some ''d1'', departmentId = None, locationId = Some ''l1'' \<rparr>,
      \<lparr> userKey = ''u2'', divisionId = Some ''d1'', departmentId = Some ''p7'', locationId = None \<rparr>,
      \<lparr> userKey = ''u3'', divisionId = Some ''d2'', departmentId = None, locationId = None \<rparr>,
      \<lparr> userKey = ''u9'', divisionId = None, departmentId = None, locationId = Some '''' \<rparr>]"

definition eventBy :: "string \<Rightarrow> audit_row" where
  "eventBy a = writeAuditEventRow None (inputMin\<lparr>in_actorId := a\<rparr>)"

text \<open>The ids collected for one dimension.\<close>

definition idsOf :: "dimension \<Rightarrow> ScopeIds \<Rightarrow> string list" where
  "idsOf d s = (case d of Division \<Rightarrow> divisionIds s | Department \<Rightarrow> departmentIds s | Location \<Rightarrow> locationIds s)"

text \<open>A serializer that fails on every payload, and a request answered with a redirect.\<close>

definition envNoJson :: "audit_row env" where
  "envNoJson = \<lparr> stringify = (\<lambda>v. None), toStringJS = (\<lambda>v. ''0''), getDb = None,
                 rejects = (\<lambda>r. None) \<rparr>"

definition inputRedirect :: AutoAuditInput where
  "inputRedirect = \<lparr> responseStatus = 302,
     responseBody = JUndefined,
     requestBody = JUndefined,
     durationMs = None, auto_actorId = None, dbTimeMs = None, moduleTimeMs = None,
     slowQueries = None \<rparr>"

text \<open>The request body as the details of a row hold it.\<close>

definition storedRequestBody :: "audit_row \<Rightarrow> jsval" where
  "storedRequestBody row =
     (case details row of Some d \<Rightarrow> getProp d ''requestBody'' | None \<Rightarrow> JUndefined)"

section \<open>Properties of the audit context\<close>

text \<open>
  C10. Outside any established audit context the accessors are total and do nothing:
  \<^verbatim>\<open>getAuditContext()\<close> gives null, \<^verbatim>\<open>getAuditWrites()\<close> gives 0, and
  \<^verbatim>\<open>markAuditWrite()\<close> leaves the absent context absent, so the count read after it is
  still 0. None of the three has a failing branch.
\<close>

theorem accessors_outside_context:
  "getAuditContext None = None
   \<and> getAuditWrites None = 0
   \<and> markAuditWrite None = None
   \<and> getAuditWrites (markAuditWrite None) = 0"
  by (simp add: getAuditContext_def getAuditWrites_def markAuditWrite_def)

section \<open>Properties of the strict write path\<close>

lemma writeAuditEvent_unfold:
  "writeAuditEvent e input w =
     (case rejects e (writeAuditEventRow (als w) input) of
        None \<Rightarrow> (Inr (), w\<lparr>events := events w @ [writeAuditEventRow (als w) input],
                            als := markAuditWrite (als w)\<rparr>)
      | Some err \<Rightarrow> (Inl err, w))"
  by (simp add: writeAuditEvent_def dbInsert_def getAuditContext_def Let_def split: option.splits)

lemma writeAuditEvent_inserted:
  assumes "als w = Some c" and "writeAuditEvent e input w = (Inr (), w')"
  shows "events w' = events w @ [writeAuditEventRow (Some c) input]"
  using assms
  by (auto simp: writeAuditEvent_unfold split: option.splits)



text \<open>
  C9. In an established context, the row \<^verbatim>\<open>writeAuditEvent\<close> inserts takes a
  correlation id, pack name, HTTP verb, path, IP address and user agent the input gives;
  where the input omits one (undefined or null), the row has the context's value, which
  is null only for an address or agent the context lacks too. The stored event type is
  the trimmed event type of the input when that has text, and the action otherwise.
\<close>

theorem writeAuditEvent_defaults:
  assumes "als w = Some c" and "writeAuditEvent e input w = (Inr (), w')"
  shows "\<exists>row. events w' = events w @ [row]
     \<and> correlationId row = (case in_correlationId input of Some v \<Rightarrow> Some v | None \<Rightarrow> Some (ctx_correlationId c))
     \<and> packName row = (case in_packName input of Some v \<Rightarrow> Some v | None \<Rightarrow> Some (ctx_packName c))
     \<and> httpMethod row = (case in_method input of Some v \<Rightarrow> Some v | None \<Rightarrow> Some (ctx_method c))
     \<and> path row = (case in_path input of Some v \<Rightarrow> Some v | None \<Rightarrow> Some (ctx_path c))
     \<and> ipAddress row = (case in_ipAddress input of Some v \<Rightarrow> Some v | None \<Rightarrow> ctx_ipAddress c)
     \<and> userAgent row = (case in_userAgent input of Some v \<Rightarrow> Some v | None \<Rightarrow> ctx_userAgent c)
     \<and> eventType row =
           (case in_eventType input of
              Some t \<Rightarrow> if trim t \<noteq> [] then Some (trim t) else Some (in_action input)
            | None \<Rightarrow> Some (in_action input))"
proof -
  have "events w' = events w @ [writeAuditEventRow (Some c) input]"
    using assms by (rule writeAuditEvent_inserted)
  then show ?thesis
    by (simp add: writeAuditEventRow_def orCtx_def split: option.splits)
qed

theorem writeAuditEvent_defaults_witness:
  "\<exists>row. events (snd (writeAuditEvent envOk inputMin worldPost)) = [row]
     \<and> correlationId row = Some ''c-1''
     \<and> packName row = Some ''sales''
     \<and> httpMethod row = Some ''POST''
     \<and> path row = Some ''/api/crm/contacts''
     \<and> ipAddress row = None
     \<and> userAgent row = Some ''curl''
     \<and> eventType row = Some ''created''"
proof -
  have a: "als worldPost = Some ctxPost" by (simp add: worldPost_def)
  have b: "writeAuditEvent envOk inputMin worldPost
            = (Inr (), snd (writeAuditEvent envOk inputMin worldPost))"
    by (simp add: writeAuditEvent_unfold envOk_def)
  show ?thesis
    using writeAuditEvent_defaults [OF a b]
    by (simp add: worldPost_def ctxPost_def inputMin_def trim_def isSpaceChar_def)
qed

section \<open>Properties of the automatic deriver\<close>

lemma autoTry_unfold:
  "autoTry e c m input w =
     (if getDb e = None \<and> rejects e (autoAuditRow e c m input) = None
      then Inr (w\<lparr>events := events w @ [autoAuditRow e c m input], als := markAuditWrite (als w)\<rparr>)
      else Inl (case getDb e of Some err \<Rightarrow> err | None \<Rightarrow> the (rejects e (autoAuditRow e c m input))))"
  by (auto simp: autoTry_def dbInsert_def split: option.splits)

lemma autoTry_v1_unfold:
  "autoTry_v1 e c m input w =
     (if getDb e = None \<and> rejects e (autoAuditRow_v1 c m input) = None
      then Inr (w\<lparr>events := events w @ [autoAuditRow_v1 c m input], als := markAuditWrite (als w)\<rparr>)
      else Inl (case getDb e of Some err \<Rightarrow> err | None \<Rightarrow> the (rejects e (autoAuditRow_v1 c m input))))"
  by (auto simp: autoTry_v1_def dbInsert_def split: option.splits)

lemma auto_no_context:
  assumes "als w = None"
  shows "writeAutoAuditEvent e input w = (Inr False, w\<lparr>console := console w @ [warnNoContext]\<rparr>)"
  using assms by (simp add: writeAutoAuditEvent_def getAuditContext_def)

lemma auto_already_written:
  assumes "als w = Some c" and "auditWrites c > 0"
  shows "writeAutoAuditEvent e input w = (Inr False, w)"
  using assms by (simp add: writeAutoAuditEvent_def getAuditContext_def)

lemma auto_ineligible:
  assumes "als w = Some c" and "toUpperCase (ctx_method c) \<notin> set writeMethods"
    and "responseStatus input < 400"
  shows "writeAutoAuditEvent e input w = (Inr False, w)"
  using assms by (simp add: writeAutoAuditEvent_def getAuditContext_def Let_def)

lemma auto_v1_skips:
  assumes "als w = None \<or> (\<exists>c. als w = Some c \<and> (auditWrites c > 0 \<or> toUpperCase (ctx_method c) \<notin> set writeMethods))"
  shows "fst (writeAutoAuditEvent_v1 e input w) = Inr False
       \<and> events (snd (writeAutoAuditEvent_v1 e input w)) = events w
       \<and> als (snd (writeAutoAuditEvent_v1 e input w)) = als w"
  using assms by (auto simp: writeAutoAuditEvent_v1_def getAuditContext_def Let_def)

text \<open>
  C1. \<^verbatim>\<open>writeAutoAuditEvent\<close> resolves to false and leaves the event store and the
  context as they were when there is no audit context, or the context's write counter is
  above 0, or the verb of the request (compared in upper case, as the source does) is
  none of POST, PUT, PATCH, DELETE and the status is below 400; the earlier deriver does
  the same. In particular, after \<^verbatim>\<open>writeAuditEvent\<close> has succeeded in a context, the
  deriver (with any input and any storage behaviour) writes nothing: the store holds the
  one explicit row and the counter stays where the explicit write put it.
\<close>

theorem auto_skips:
  "((als w = None
      \<or> (\<exists>c. als w = Some c
            \<and> (auditWrites c > 0
                \<or> (toUpperCase (ctx_method c) \<notin> set writeMethods \<and> responseStatus input < 400))))
     \<longrightarrow> fst (writeAutoAuditEvent e input w) = Inr False
         \<and> events (snd (writeAutoAuditEvent e input w)) = events w
         \<and> als (snd (writeAutoAuditEvent e input w)) = als w
         \<and> fst (writeAutoAuditEvent_v1 e input w) = Inr False
         \<and> events (snd (writeAutoAuditEvent_v1 e input w)) = events w
         \<and> als (snd (writeAutoAuditEvent_v1 e input w)) = als w)
   \<and> (\<forall>c w1. als w = Some c \<and> writeAuditEvent e explicit w = (Inr (), w1)
        \<longrightarrow> writeAutoAuditEvent e' input w1 = (Inr False, w1)
          \<and> writeAutoAuditEvent_v1 e' input w1 = (Inr False, w1)
          \<and> events w1 = events w @ [writeAuditEventRow (Some c) explicit]
          \<and> getAuditWrites (als w1) = auditWrites c + 1)"
proof (intro conjI impI allI)
  assume skip: "als w = None
      \<or> (\<exists>c. als w = Some c
            \<and> (auditWrites c > 0
                \<or> (toUpperCase (ctx_method c) \<notin> set writeMethods \<and> responseStatus input < 400)))"
  then have new: "fst (writeAutoAuditEvent e input w) = Inr False
         \<and> events (snd (writeAutoAuditEvent e input w)) = events w
         \<and> als (snd (writeAutoAuditEvent e input w)) = als w"
    by (auto simp: auto_no_context auto_already_written auto_ineligible)
  from skip have old: "fst (writeAutoAuditEvent_v1 e input w) = Inr False
       \<and> events (snd (writeAutoAuditEvent_v1 e input w)) = events w
       \<and> als (snd (writeAutoAuditEvent_v1 e input w)) = als w"
    by (intro auto_v1_skips) auto
  show "fst (writeAutoAuditEvent e input w) = Inr False" using new by simp
  show "events (snd (writeAutoAuditEvent e input w)) = events w" using new by simp
  show "als (snd (writeAutoAuditEvent e input w)) = als w" using new by simp
  show "fst (writeAutoAuditEvent_v1 e input w) = Inr False" using old by simp
  show "events (snd (writeAutoAuditEvent_v1 e input w)) = events w" using old by simp
  show "als (snd (writeAutoAuditEvent_v1 e input w)) = als w" using old by simp
next
  fix c w1
  assume h: "als w = Some c \<and> writeAuditEvent e explicit w = (Inr (), w1)"
  then have w1: "w1 = w\<lparr>events := events w @ [writeAuditEventRow (Some c) explicit],
                         als := Some (c\<lparr>auditWrites := auditWrites c + 1\<rparr>)\<rparr>"
    by (auto simp: writeAuditEvent_unfold markAuditWrite_def split: option.splits)
  show "writeAutoAuditEvent e' input w1 = (Inr False, w1)"
    by (rule auto_already_written [where c = "c\<lparr>auditWrites := auditWrites c + 1\<rparr>"])
       (simp_all add: w1)
  show "writeAutoAuditEvent_v1 e' input w1 = (Inr False, w1)"
    by (simp add: w1 writeAutoAuditEvent_v1_def getAuditContext_def)
  show "events w1 = events w @ [writeAuditEventRow (Some c) explicit]"
    by (simp add: w1)
  show "getAuditWrites (als w1) = auditWrites c + 1"
    by (simp add: w1 getAuditWrites_def)
qed

theorem auto_skips_witness:
  "fst (writeAutoAuditEvent envOk inputCreated worldNoContext) = Inr False
   \<and> events (snd (writeAutoAuditEvent envOk inputCreated worldNoContext)) = []
   \<and> fst (writeAutoAuditEvent envOk inputCreated worldGet) = Inr False
   \<and> events (snd (writeAutoAuditEvent envOk inputCreated worldGet)) = []
   \<and> writeAutoAuditEvent envOk inputCreated (snd (writeAuditEvent envOk inputMin worldPost))
       = (Inr False, snd (writeAuditEvent envOk inputMin worldPost))
   \<and> length (events (snd (writeAuditEvent envOk inputMin worldPost))) = 1
   \<and> getAuditWrites (als (snd (writeAuditEvent envOk inputMin worldPost))) = 1"
proof -
  have a: "als worldNoContext = None" by (simp add: worldNoContext_def)
  have b: "als worldGet = Some ctxGet
           \<and> toUpperCase (ctx_method ctxGet) \<notin> set writeMethods
           \<and> responseStatus inputCreated < 400"
    by (simp add: worldGet_def ctxGet_def inputCreated_def writeMethods_def toUpperCase_def
        toUpperChar_def asciiLower_def asciiUpper_def)
  have c: "als worldPost = Some ctxPost
           \<and> writeAuditEvent envOk inputMin worldPost
               = (Inr (), snd (writeAuditEvent envOk inputMin worldPost))"
    by (simp add: worldPost_def writeAuditEvent_unfold envOk_def)
  show ?thesis
    using a b c
      auto_skips [where w = worldNoContext and input = inputCreated and e = envOk]
      auto_skips [where w = worldGet and input = inputCreated and e = envOk]
      auto_skips [where w = worldPost and input = inputCreated and e = envOk
                    and explicit = inputMin and e' = envOk]
    by (simp add: worldNoContext_def worldGet_def worldPost_def ctxPost_def)
qed

lemma auto_resolves: "\<exists>b. fst (writeAutoAuditEvent e input w) = Inr b"
  by (auto simp: writeAutoAuditEvent_def getAuditContext_def Let_def split: option.splits sum.splits)

lemma auto_keeps_on_false:
  assumes "fst (writeAutoAuditEvent e input w) = Inr False"
  shows "events (snd (writeAutoAuditEvent e input w)) = events w
       \<and> als (snd (writeAutoAuditEvent e input w)) = als w"
  using assms
  by (auto simp: writeAutoAuditEvent_def getAuditContext_def Let_def split: option.splits sum.splits if_splits)

lemma auto_written:
  assumes "fst (writeAutoAuditEvent e input w) = Inr True"
  shows "\<exists>c. als w = Some c \<and> auditWrites c = 0
          \<and> getDb e = None
          \<and> rejects e (autoAuditRow e c (toUpperCase (ctx_method c)) input) = None
          \<and> snd (writeAutoAuditEvent e input w) =
               w\<lparr>events := events w @ [autoAuditRow e c (toUpperCase (ctx_method c)) input],
                  als := Some (c\<lparr>auditWrites := 1\<rparr>)\<rparr>"
  using assms
  by (auto simp: writeAutoAuditEvent_def getAuditContext_def Let_def autoTry_unfold markAuditWrite_def
           split: option.splits sum.splits if_splits)

lemma auto_failure_false:
  assumes "getDb e \<noteq> None
           \<or> (\<exists>c. als w = Some c \<and> rejects e (autoAuditRow e c (toUpperCase (ctx_method c)) input) \<noteq> None)"
  shows "fst (writeAutoAuditEvent e input w) = Inr False"
proof -
  obtain b where b: "fst (writeAutoAuditEvent e input w) = Inr b"
    using auto_resolves by blast
  have "\<not> b"
  proof
    assume "b"
    with b have "fst (writeAutoAuditEvent e input w) = Inr True" by simp
    from auto_written [OF this] assms show False by auto
  qed
  with b show ?thesis by simp
qed

lemma truncatePayload_small:
  assumes "notNullish p" and "stringify e p = Some s" and "length s \<le> n"
  shows "truncatePayload e p n = p"
  using assms by (cases p) (simp_all add: truncatePayload_def)

lemma truncatePayload_large:
  assumes "notNullish p" and "stringify e p = Some s" and "length s > n"
  shows "truncatePayload e p n =
           JObj [(''_truncated'', JBool True), (''_originalLength'', JNum (int (length s))),
                 (''_preview'', JStr (take n s))]"
  using assms by (cases p) (simp_all add: truncatePayload_def)

lemma truncatePayload_error:
  assumes "notNullish p" and "stringify e p = None"
  shows "truncatePayload e p n = JObj [(''_error'', JStr ''Could not serialize payload'')]"
  using assms by (cases p) (simp_all add: truncatePayload_def)

lemma details_requestBody:
  "getProp (autoDetails e input) ''requestBody'' =
     (if notNullish (requestBody input) then truncatePayload e (requestBody input) 4000
      else JUndefined)"
  by (simp add: autoDetails_def map_add_def split: option.splits)

lemma details_responseBody:
  "getProp (autoDetails e input) ''responseBody'' =
     (if notNullish (responseBody input) then truncatePayload e (responseBody input) 4000
      else JUndefined)"
  by (simp add: autoDetails_def map_add_def split: option.splits)

lemma auto_eligible_written:
  assumes "als w = Some c" and "auditWrites c = 0"
    and "toUpperCase (ctx_method c) \<in> set writeMethods
         \<or> (ctx_method c \<noteq> [] \<and> 400 \<le> responseStatus input)"
    and "getDb e = None"
    and "rejects e (autoAuditRow e c (toUpperCase (ctx_method c)) input) = None"
  shows "fst (writeAutoAuditEvent e input w) = Inr True"
proof -
  have ne: "toUpperCase (ctx_method c) \<noteq> []"
    using assms(3) by (auto simp: writeMethods_def toUpperCase_def)
  show ?thesis
    using assms ne
    by (auto simp: writeAutoAuditEvent_def getAuditContext_def Let_def autoTry_unfold)
qed

lemma storedRequestBody_error:
  assumes "notNullish (requestBody input)" and "stringify e (requestBody input) = None"
  shows "storedRequestBody (autoAuditRow e c m input)
           = JObj [(''_error'', JStr ''Could not serialize payload'')]"
proof -
  have "details (autoAuditRow e c m input) = Some (autoDetails e input)"
    by (simp add: autoAuditRow_def Let_def)
  then show ?thesis
    using assms
    by (simp add: storedRequestBody_def details_requestBody truncatePayload_error)
qed

text \<open>
  C3, as amended. \<^verbatim>\<open>writeAutoAuditEvent\<close> never rejects: for every input, every world
  and every behaviour of the serializer, the database module and the event store, it
  resolves to a boolean. Whenever the database module fails or the store rejects the
  derived row, the result is false and the event store and the context are as before (a
  line on the console is the only trace). It resolves to true only when the row was
  appended. A payload that cannot be serialized is no such failure: for an eligible
  request whose insert is accepted the result is true and the row is appended whatever
  the serializer does, and a request body whose serialization fails is stored as the
  error marker.
\<close>

theorem auto_never_throws:
  "(\<exists>b. fst (writeAutoAuditEvent e input w) = Inr b)
   \<and> ((getDb e \<noteq> None
        \<or> (\<exists>c. als w = Some c
              \<and> rejects e (autoAuditRow e c (toUpperCase (ctx_method c)) input) \<noteq> None))
       \<longrightarrow> fst (writeAutoAuditEvent e input w) = Inr False
         \<and> events (snd (writeAutoAuditEvent e input w)) = events w
         \<and> als (snd (writeAutoAuditEvent e input w)) = als w)
   \<and> (fst (writeAutoAuditEvent e input w) = Inr True
       \<longrightarrow> (\<exists>c. als w = Some c
             \<and> getDb e = None
             \<and> rejects e (autoAuditRow e c (toUpperCase (ctx_method c)) input) = None
             \<and> events (snd (writeAutoAuditEvent e input w))
                 = events w @ [autoAuditRow e c (toUpperCase (ctx_method c)) input]))
   \<and> (\<forall>c. als w = Some c \<and> auditWrites c = 0
            \<and> (toUpperCase (ctx_method c) \<in> set writeMethods
                \<or> (ctx_method c \<noteq> [] \<and> 400 \<le> responseStatus input))
            \<and> getDb e = None
            \<and> rejects e (autoAuditRow e c (toUpperCase (ctx_method c)) input) = None
        \<longrightarrow> fst (writeAutoAuditEvent e input w) = Inr True
          \<and> events (snd (writeAutoAuditEvent e input w))
               = events w @ [autoAuditRow e c (toUpperCase (ctx_method c)) input]
          \<and> (notNullish (requestBody input) \<and> stringify e (requestBody input) = None
               \<longrightarrow> storedRequestBody (autoAuditRow e c (toUpperCase (ctx_method c)) input)
                     = JObj [(''_error'', JStr ''Could not serialize payload'')]))"
proof (intro conjI impI allI)
  show "\<exists>b. fst (writeAutoAuditEvent e input w) = Inr b" by (rule auto_resolves)
next
  assume f: "getDb e \<noteq> None
        \<or> (\<exists>c. als w = Some c
              \<and> rejects e (autoAuditRow e c (toUpperCase (ctx_method c)) input) \<noteq> None)"
  then show r: "fst (writeAutoAuditEvent e input w) = Inr False" by (rule auto_failure_false)
  from auto_keeps_on_false [OF r]
  show "events (snd (writeAutoAuditEvent e input w)) = events w"
    and "als (snd (writeAutoAuditEvent e input w)) = als w" by simp_all
next
  assume "fst (writeAutoAuditEvent e input w) = Inr True"
  from auto_written [OF this] show "\<exists>c. als w = Some c
             \<and> getDb e = None
             \<and> rejects e (autoAuditRow e c (toUpperCase (ctx_method c)) input) = None
             \<and> events (snd (writeAutoAuditEvent e input w))
                 = events w @ [autoAuditRow e c (toUpperCase (ctx_method c)) input]"
    by auto
next
  fix c
  assume h: "als w = Some c \<and> auditWrites c = 0
            \<and> (toUpperCase (ctx_method c) \<in> set writeMethods
                \<or> (ctx_method c \<noteq> [] \<and> 400 \<le> responseStatus input))
            \<and> getDb e = None
            \<and> rejects e (autoAuditRow e c (toUpperCase (ctx_method c)) input) = None"
  then show t: "fst (writeAutoAuditEvent e input w) = Inr True"
    by (intro auto_eligible_written [of w c]) simp_all
  from auto_written [OF t] h
  show "events (snd (writeAutoAuditEvent e input w))
               = events w @ [autoAuditRow e c (toUpperCase (ctx_method c)) input]"
    by auto
next
  fix c
  assume "notNullish (requestBody input) \<and> stringify e (requestBody input) = None"
  then show "storedRequestBody (autoAuditRow e c (toUpperCase (ctx_method c)) input)
                     = JObj [(''_error'', JStr ''Could not serialize payload'')]"
    by (simp add: storedRequestBody_error)
qed

theorem auto_never_throws_witness:
  "fst (writeAutoAuditEvent envReject inputCreated worldPost) = Inr False
   \<and> events (snd (writeAutoAuditEvent envReject inputCreated worldPost)) = []
   \<and> als (snd (writeAutoAuditEvent envReject inputCreated worldPost)) = Some ctxPost
   \<and> fst (writeAutoAuditEvent envNoDb inputCreated worldPost) = Inr False
   \<and> events (snd (writeAutoAuditEvent envNoDb inputCreated worldPost)) = []
   \<and> fst (writeAutoAuditEvent envOk inputCreated worldPost) = Inr True
   \<and> length (events (snd (writeAutoAuditEvent envOk inputCreated worldPost))) = 1
   \<and> fst (writeAutoAuditEvent envNoJson inputCreated worldPost) = Inr True
   \<and> map storedRequestBody (events (snd (writeAutoAuditEvent envNoJson inputCreated worldPost)))
       = [JObj [(''_error'', JStr ''Could not serialize payload'')]]"
proof -
  have a: "getDb envNoDb \<noteq> None" by (simp add: envNoDb_def)
  have b: "als worldPost = Some ctxPost
           \<and> rejects envReject (autoAuditRow envReject ctxPost (toUpperCase (ctx_method ctxPost)) inputCreated) \<noteq> None"
    by (simp add: worldPost_def envReject_def)
  have u: "toUpperCase (ctx_method ctxPost) = ''POST''"
    by (simp add: ctxPost_def toUpperCase_def toUpperChar_def asciiLower_def asciiUpper_def)
  have d: "als worldPost = Some ctxPost \<and> auditWrites ctxPost = 0
           \<and> toUpperCase (ctx_method ctxPost) \<in> set writeMethods
           \<and> getDb envOk = None \<and> getDb envNoJson = None
           \<and> rejects envOk (autoAuditRow envOk ctxPost (toUpperCase (ctx_method ctxPost)) inputCreated) = None
           \<and> rejects envNoJson (autoAuditRow envNoJson ctxPost (toUpperCase (ctx_method ctxPost)) inputCreated) = None
           \<and> notNullish (requestBody inputCreated)
           \<and> stringify envNoJson (requestBody inputCreated) = None"
    by (simp add: u worldPost_def envOk_def envNoJson_def writeMethods_def inputCreated_def)
       (simp add: ctxPost_def)
  have n: "fst (writeAutoAuditEvent envNoDb inputCreated worldPost) = Inr False
           \<and> events (snd (writeAutoAuditEvent envNoDb inputCreated worldPost)) = events worldPost"
    using a auto_never_throws [of envNoDb inputCreated worldPost] by blast
  have r: "fst (writeAutoAuditEvent envReject inputCreated worldPost) = Inr False
           \<and> events (snd (writeAutoAuditEvent envReject inputCreated worldPost)) = events worldPost
           \<and> als (snd (writeAutoAuditEvent envReject inputCreated worldPost)) = als worldPost"
    using b auto_never_throws [of envReject inputCreated worldPost] by blast
  have o: "fst (writeAutoAuditEvent envOk inputCreated worldPost) = Inr True
           \<and> events (snd (writeAutoAuditEvent envOk inputCreated worldPost))
               = events worldPost @ [autoAuditRow envOk ctxPost (toUpperCase (ctx_method ctxPost)) inputCreated]"
    using d auto_never_throws [of envOk inputCreated worldPost] by blast
  have j: "fst (writeAutoAuditEvent envNoJson inputCreated worldPost) = Inr True
           \<and> events (snd (writeAutoAuditEvent envNoJson inputCreated worldPost))
               = events worldPost @ [autoAuditRow envNoJson ctxPost (toUpperCase (ctx_method ctxPost)) inputCreated]
           \<and> storedRequestBody (autoAuditRow envNoJson ctxPost (toUpperCase (ctx_method ctxPost)) inputCreated)
               = JObj [(''_error'', JStr ''Could not serialize payload'')]"
    using d auto_never_throws [of envNoJson inputCreated worldPost] by blast
  show ?thesis
    using n r o j by (simp add: worldPost_def)
qed

lemma wrote_unserializable: "fst (writeAutoAuditEvent envNoJson inputCreated worldPost) = Inr True"
  by (simp add: writeAutoAuditEvent_def getAuditContext_def worldPost_def ctxPost_def
        toUpperCase_def toUpperChar_def asciiLower_def asciiUpper_def writeMethods_def
        autoTry_unfold envNoJson_def Let_def)

text \<open>
  C3, as stated, fails where it counts a payload that cannot be serialized among the
  failures that give false: with a serializer that fails, a POST answered 201 is still
  derived, the call resolves to true, and the row holds the error marker as its request
  body.
\<close>

theorem auto_serialization_counterexample:
  "notNullish (requestBody inputCreated)
   \<and> stringify envNoJson (requestBody inputCreated) = None
   \<and> fst (writeAutoAuditEvent envNoJson inputCreated worldPost) = Inr True
   \<and> fst (writeAutoAuditEvent envNoJson inputCreated worldPost) \<noteq> Inr False
   \<and> map storedRequestBody (events (snd (writeAutoAuditEvent envNoJson inputCreated worldPost)))
       = [JObj [(''_error'', JStr ''Could not serialize payload'')]]"
proof -
  have s: "notNullish (requestBody inputCreated) \<and> stringify envNoJson (requestBody inputCreated) = None"
    by (simp add: inputCreated_def envNoJson_def)
  have u: "toUpperCase (ctx_method ctxPost) = ''POST''"
    by (simp add: ctxPost_def toUpperCase_def toUpperChar_def asciiLower_def asciiUpper_def)
  have ev: "events (snd (writeAutoAuditEvent envNoJson inputCreated worldPost))
              = [autoAuditRow envNoJson ctxPost ''POST'' inputCreated]"
    using auto_written [OF wrote_unserializable] u
    by (auto simp: worldPost_def)
  have m: "storedRequestBody (autoAuditRow envNoJson ctxPost ''POST'' inputCreated)
             = JObj [(''_error'', JStr ''Could not serialize payload'')]"
    using s by (simp add: storedRequestBody_error)
  show ?thesis
    using s by (simp add: wrote_unserializable ev m)
qed

lemma toLower_toUpper_char: "toLowerChar (toUpperChar c) = toLowerChar c"
  by (simp add: toLowerChar_def toUpperChar_def asciiLower_def asciiUpper_def)

lemma toUpper_toUpper_char: "toUpperChar (toUpperChar c) = toUpperChar c"
  by (simp add: toUpperChar_def asciiLower_def asciiUpper_def)

lemma toLowerCase_toUpperCase: "toLowerCase (toUpperCase s) = toLowerCase s"
  by (simp add: toLowerCase_def toUpperCase_def toLower_toUpper_char)

lemma toUpperCase_idem: "toUpperCase (toUpperCase s) = toUpperCase s"
  by (simp add: toUpperCase_def toUpper_toUpper_char)

lemma methodToAction_upper:
  "methodToAction (toUpperCase x) =
     (if toUpperCase x = ''GET'' then ''read''
      else if toUpperCase x = ''POST'' then ''created''
      else if toUpperCase x = ''PUT'' \<or> toUpperCase x = ''PATCH'' then ''updated''
      else if toUpperCase x = ''DELETE'' then ''deleted''
      else toLowerCase x)"
  by (simp add: methodToAction_def Let_def toUpperCase_idem toLowerCase_toUpperCase)

lemma autoAction_suffix:
  "autoAction m st =
     methodToAction m @ (if 200 \<le> st \<and> st < 300 then []
                         else if 400 \<le> st \<and> st < 500 then ''_rejected''
                         else ''_failed'')"
  by (simp add: autoAction_def isSuccess_def isClientError_def Let_def)

lemma methodToAction_v1_upper:
  "methodToAction_v1 (toUpperCase x) =
     (if toUpperCase x = ''POST'' then ''created''
      else if toUpperCase x = ''PUT'' \<or> toUpperCase x = ''PATCH'' then ''updated''
      else if toUpperCase x = ''DELETE'' then ''deleted''
      else toLowerCase x)"
  by (simp add: methodToAction_v1_def Let_def toUpperCase_idem toLowerCase_toUpperCase)

lemma auto_v1_written:
  assumes "fst (writeAutoAuditEvent_v1 e input w) = Inr True"
  shows "\<exists>c. als w = Some c
          \<and> 200 \<le> responseStatus input \<and> responseStatus input < 300
          \<and> toUpperCase (ctx_method c) \<in> set writeMethods
          \<and> events (snd (writeAutoAuditEvent_v1 e input w))
               = events w @ [autoAuditRow_v1 c (toUpperCase (ctx_method c)) input]"
  using assms
  by (auto simp: writeAutoAuditEvent_v1_def getAuditContext_def Let_def autoTry_v1_unfold
           split: option.splits sum.splits if_splits)

lemma action_autoAuditRow_v1: "action (autoAuditRow_v1 c m input) = methodToAction_v1 m"
  by (simp add: autoAuditRow_v1_def Let_def)

lemma action_autoAuditRow: "action (autoAuditRow e c m input) = autoAction m (responseStatus input)"
  by (simp add: autoAuditRow_def Let_def)

lemma upper_simps:
  "toUpperCase ''GET'' = ''GET''" "toUpperCase ''POST'' = ''POST''"
  "toUpperCase ''Options'' = ''OPTIONS''" "toLowerCase ''Options'' = ''options''"
  "toLowerCase ''GET'' = ''get''"
  by (simp_all add: toUpperCase_def toLowerCase_def toLowerChar_def toUpperChar_def asciiLower_def asciiUpper_def)

lemma wrote_get: "fst (writeAutoAuditEvent envOk inputNotFound worldGet) = Inr True"
  by (simp add: writeAutoAuditEvent_def getAuditContext_def worldGet_def ctxGet_def
        upper_simps writeMethods_def autoTry_unfold envOk_def Let_def inputNotFound_def)

lemma wrote_redirect: "fst (writeAutoAuditEvent envOk inputRedirect worldPost) = Inr True"
  by (simp add: writeAutoAuditEvent_def getAuditContext_def worldPost_def ctxPost_def
        upper_simps writeMethods_def autoTry_unfold envOk_def Let_def)

lemma wrote_v1: "fst (writeAutoAuditEvent_v1 envOk inputCreated worldPost) = Inr True"
  by (simp add: writeAutoAuditEvent_v1_def getAuditContext_def worldPost_def ctxPost_def
        upper_simps writeMethods_def autoTry_v1_unfold envOk_def Let_def inputCreated_def)

text \<open>
  C6, as amended. For every event the deriver writes, the action is, by the verb of the
  context in upper case: \<open>read\<close> for GET, \<open>created\<close> for POST, \<open>updated\<close> for PUT and
  PATCH, \<open>deleted\<close> for DELETE, and the lower-cased verb for any other; when the status
  is not 2xx the action is suffixed, with \<open>_rejected\<close> for a 4xx status and with
  \<open>_failed\<close> for a 5xx status and for any other status outside 2xx; a 2xx status
  gives no suffix. The earlier deriver writes only for 2xx answers to POST, PUT, PATCH
  and DELETE, with the actions \<open>created\<close>, \<open>updated\<close> and \<open>deleted\<close> and no suffix; its
  \<^verbatim>\<open>methodToAction\<close> has no case for GET and lower-cases every other verb.
\<close>

theorem auto_action:
  "(als w = Some c \<and> fst (writeAutoAuditEvent e input w) = Inr True \<longrightarrow>
      (\<exists>row. events (snd (writeAutoAuditEvent e input w)) = events w @ [row]
         \<and> action row =
             (if toUpperCase (ctx_method c) = ''GET'' then ''read''
              else if toUpperCase (ctx_method c) = ''POST'' then ''created''
              else if toUpperCase (ctx_method c) = ''PUT'' \<or> toUpperCase (ctx_method c) = ''PATCH''
                then ''updated''
              else if toUpperCase (ctx_method c) = ''DELETE'' then ''deleted''
              else toLowerCase (ctx_method c))
             @ (if 200 \<le> responseStatus input \<and> responseStatus input < 300 then []
                else if 400 \<le> responseStatus input \<and> responseStatus input < 500 then ''_rejected''
                else ''_failed'')))
   \<and> (als w = Some c \<and> fst (writeAutoAuditEvent_v1 e input w) = Inr True \<longrightarrow>
      200 \<le> responseStatus input \<and> responseStatus input < 300
      \<and> (\<exists>row. events (snd (writeAutoAuditEvent_v1 e input w)) = events w @ [row]
         \<and> action row =
             (if toUpperCase (ctx_method c) = ''POST'' then ''created''
              else if toUpperCase (ctx_method c) = ''PUT'' \<or> toUpperCase (ctx_method c) = ''PATCH''
                then ''updated''
              else ''deleted'')))
   \<and> methodToAction_v1 x =
       (if toUpperCase x = ''POST'' then ''created''
        else if toUpperCase x = ''PUT'' \<or> toUpperCase x = ''PATCH'' then ''updated''
        else if toUpperCase x = ''DELETE'' then ''deleted''
        else toLowerCase x)"
proof (intro conjI impI)
  assume h: "als w = Some c \<and> fst (writeAutoAuditEvent e input w) = Inr True"
  then have t: "fst (writeAutoAuditEvent e input w) = Inr True" by simp
  from auto_written [OF t] h
  have ev: "events (snd (writeAutoAuditEvent e input w))
              = events w @ [autoAuditRow e c (toUpperCase (ctx_method c)) input]"
    by auto
  show "\<exists>row. events (snd (writeAutoAuditEvent e input w)) = events w @ [row]
         \<and> action row =
             (if toUpperCase (ctx_method c) = ''GET'' then ''read''
              else if toUpperCase (ctx_method c) = ''POST'' then ''created''
              else if toUpperCase (ctx_method c) = ''PUT'' \<or> toUpperCase (ctx_method c) = ''PATCH''
                then ''updated''
              else if toUpperCase (ctx_method c) = ''DELETE'' then ''deleted''
              else toLowerCase (ctx_method c))
             @ (if 200 \<le> responseStatus input \<and> responseStatus input < 300 then []
                else if 400 \<le> responseStatus input \<and> responseStatus input < 500 then ''_rejected''
                else ''_failed'')"
    unfolding ev
    by (simp add: action_autoAuditRow autoAction_suffix methodToAction_upper)
next
  assume h: "als w = Some c \<and> fst (writeAutoAuditEvent_v1 e input w) = Inr True"
  then have t: "fst (writeAutoAuditEvent_v1 e input w) = Inr True" by simp
  from auto_v1_written [OF t] h
  have st: "200 \<le> responseStatus input \<and> responseStatus input < 300"
    and wm: "toUpperCase (ctx_method c) \<in> set writeMethods"
    and ev: "events (snd (writeAutoAuditEvent_v1 e input w))
               = events w @ [autoAuditRow_v1 c (toUpperCase (ctx_method c)) input]"
    by auto
  from st show "200 \<le> responseStatus input" and "responseStatus input < 300" by simp_all
  show "\<exists>row. events (snd (writeAutoAuditEvent_v1 e input w)) = events w @ [row]
         \<and> action row =
             (if toUpperCase (ctx_method c) = ''POST'' then ''created''
              else if toUpperCase (ctx_method c) = ''PUT'' \<or> toUpperCase (ctx_method c) = ''PATCH''
                then ''updated''
              else ''deleted'')"
    unfolding ev using wm
    by (auto simp: action_autoAuditRow_v1 methodToAction_v1_upper writeMethods_def)
next
  show "methodToAction_v1 x =
       (if toUpperCase x = ''POST'' then ''created''
        else if toUpperCase x = ''PUT'' \<or> toUpperCase x = ''PATCH'' then ''updated''
        else if toUpperCase x = ''DELETE'' then ''deleted''
        else toLowerCase x)"
    by (simp add: methodToAction_v1_def Let_def)
qed

theorem auto_action_witness:
  "(\<exists>row. events (snd (writeAutoAuditEvent envOk inputCreated worldPost)) = [row]
          \<and> action row = ''created'')
   \<and> (\<exists>row. events (snd (writeAutoAuditEvent envOk inputRedirect worldPost)) = [row]
          \<and> action row = ''created_failed'')
   \<and> (\<exists>row. events (snd (writeAutoAuditEvent envOk inputNotFound worldGet)) = [row]
          \<and> action row = ''read_rejected'')
   \<and> (\<exists>row. events (snd (writeAutoAuditEvent envOk inputServerError worldOptions)) = [row]
          \<and> action row = ''options_failed'')
   \<and> (\<exists>row. events (snd (writeAutoAuditEvent_v1 envOk inputCreated worldPost)) = [row]
          \<and> action row = ''created'')
   \<and> methodToAction_v1 ''GET'' = ''get''"
proof -
  have a: "als worldPost = Some ctxPost" "als worldGet = Some ctxGet" "als worldOptions = Some ctxOptions"
    by (simp_all add: worldPost_def worldGet_def worldOptions_def)
  have b: "fst (writeAutoAuditEvent envOk inputCreated worldPost) = Inr True"
    by (simp add: writeAutoAuditEvent_def getAuditContext_def worldPost_def ctxPost_def
        upper_simps writeMethods_def autoTry_unfold envOk_def Let_def)
  have c: "fst (writeAutoAuditEvent envOk inputServerError worldOptions) = Inr True"
    by (simp add: writeAutoAuditEvent_def getAuditContext_def worldOptions_def ctxOptions_def
        upper_simps writeMethods_def autoTry_unfold envOk_def Let_def inputServerError_def)
  note t1 = auto_action [where w = worldPost and c = ctxPost and e = envOk and input = inputCreated
                            and x = "''GET''", THEN conjunct1]
  note t2 = auto_action [where w = worldPost and c = ctxPost and e = envOk and input = inputRedirect,
                            THEN conjunct1]
  note t3 = auto_action [where w = worldGet and c = ctxGet and e = envOk and input = inputNotFound,
                            THEN conjunct1]
  note t4 = auto_action [where w = worldOptions and c = ctxOptions and e = envOk
                            and input = inputServerError, THEN conjunct1]
  note t5 = auto_action [where w = worldPost and c = ctxPost and e = envOk and input = inputCreated,
                            THEN conjunct2, THEN conjunct1]
  note t6 = auto_action [where x = "''GET''", THEN conjunct2, THEN conjunct2]
  have r1: "\<exists>row. events (snd (writeAutoAuditEvent envOk inputCreated worldPost)) = [row]
          \<and> action row = ''created''"
    using t1 a(1) b
    by (simp add: worldPost_def ctxPost_def upper_simps inputCreated_def)
  have r2: "\<exists>row. events (snd (writeAutoAuditEvent envOk inputRedirect worldPost)) = [row]
          \<and> action row = ''created_failed''"
    using t2 a(1) wrote_redirect
    by (simp add: worldPost_def ctxPost_def upper_simps inputRedirect_def)
  have r3: "\<exists>row. events (snd (writeAutoAuditEvent envOk inputNotFound worldGet)) = [row]
          \<and> action row = ''read_rejected''"
    using t3 a(2) wrote_get
    by (simp add: worldGet_def ctxGet_def upper_simps inputNotFound_def)
  have r4: "\<exists>row. events (snd (writeAutoAuditEvent envOk inputServerError worldOptions)) = [row]
          \<and> action row = ''options_failed''"
    using t4 a(3) c
    by (simp add: worldOptions_def ctxOptions_def upper_simps inputServerError_def)
  have r5: "\<exists>row. events (snd (writeAutoAuditEvent_v1 envOk inputCreated worldPost)) = [row]
          \<and> action row = ''created''"
    using t5 a(1) wrote_v1
    by (simp add: worldPost_def ctxPost_def upper_simps)
  have r6: "methodToAction_v1 ''GET'' = ''get''"
    using t6 by (simp add: upper_simps)
  from r1 r2 r3 r4 r5 r6 show ?thesis by blast
qed


text \<open>
  C6, as stated, fails for GET: a GET answered with 404 is derived with the action
  \<open>read_rejected\<close>, not the lower-cased verb \<open>get\<close> with the suffix.
\<close>

theorem auto_action_get_counterexample:
  "fst (writeAutoAuditEvent envOk inputNotFound worldGet) = Inr True
   \<and> map action (events (snd (writeAutoAuditEvent envOk inputNotFound worldGet))) = [''read_rejected'']
   \<and> toLowerCase (ctx_method ctxGet) @ ''_rejected'' = ''get_rejected''
   \<and> map action (events (snd (writeAutoAuditEvent envOk inputNotFound worldGet)))
        \<noteq> [toLowerCase (ctx_method ctxGet) @ ''_rejected'']"
proof -
  have ev: "events (snd (writeAutoAuditEvent envOk inputNotFound worldGet))
              = [autoAuditRow envOk ctxGet ''GET'' inputNotFound]"
    using auto_written [OF wrote_get]
    by (auto simp: worldGet_def ctxGet_def upper_simps)
  have act: "action (autoAuditRow envOk ctxGet ''GET'' inputNotFound) = ''read_rejected''"
    by (simp add: action_autoAuditRow autoAction_def methodToAction_def upper_simps
        isSuccess_def isClientError_def inputNotFound_def)
  have low: "toLowerCase (ctx_method ctxGet) = ''get''"
    by (simp add: ctxGet_def upper_simps)
  show ?thesis
    by (simp add: wrote_get ev act low)
qed

text \<open>
  C8. A request or response body that is neither null nor undefined is stored in the
  details of the derived event as follows. When its serialization has at most 4000
  characters the body itself is stored; when it has more, a marker is stored whose
  \<open>_truncated\<close> is true, whose \<open>_originalLength\<close> is the full length and whose
  \<open>_preview\<close> is the first 4000 characters of the serialization; when serializing
  throws, the error marker is stored. \<open>requestBody\<close> is computed from the request body
  alone and \<open>responseBody\<close> from the response body alone.
\<close>

theorem truncated_bodies:
  "(notNullish p \<longrightarrow>
      (\<forall>s. stringify e p = Some s \<and> length s \<le> 4000 \<longrightarrow> truncatePayload e p 4000 = p)
    \<and> (\<forall>s. stringify e p = Some s \<and> length s > 4000 \<longrightarrow>
          truncatePayload e p 4000 =
            JObj [(''_truncated'', JBool True), (''_originalLength'', JNum (int (length s))),
                  (''_preview'', JStr (take 4000 s))])
    \<and> (stringify e p = None \<longrightarrow>
          truncatePayload e p 4000 = JObj [(''_error'', JStr ''Could not serialize payload'')]))
   \<and> details (autoAuditRow e c m input) = Some (autoDetails e input)
   \<and> getProp (autoDetails e input) ''requestBody'' =
       (if notNullish (requestBody input) then truncatePayload e (requestBody input) 4000
        else JUndefined)
   \<and> getProp (autoDetails e input) ''responseBody'' =
       (if notNullish (responseBody input) then truncatePayload e (responseBody input) 4000
        else JUndefined)"
proof (intro conjI impI allI)
  fix s assume "notNullish p" "stringify e p = Some s \<and> length s \<le> 4000"
  then show "truncatePayload e p 4000 = p" by (simp add: truncatePayload_small)
next
  fix s assume "notNullish p" "stringify e p = Some s \<and> length s > 4000"
  then show "truncatePayload e p 4000 =
            JObj [(''_truncated'', JBool True), (''_originalLength'', JNum (int (length s))),
                  (''_preview'', JStr (take 4000 s))]"
    by (simp add: truncatePayload_large)
next
  assume "notNullish p" "stringify e p = None"
  then show "truncatePayload e p 4000 = JObj [(''_error'', JStr ''Could not serialize payload'')]"
    by (rule truncatePayload_error)
next
  show "details (autoAuditRow e c m input) = Some (autoDetails e input)"
    by (simp add: autoAuditRow_def Let_def)
next
  show "getProp (autoDetails e input) ''requestBody'' =
       (if notNullish (requestBody input) then truncatePayload e (requestBody input) 4000
        else JUndefined)" by (rule details_requestBody)
next
  show "getProp (autoDetails e input) ''responseBody'' =
       (if notNullish (responseBody input) then truncatePayload e (responseBody input) 4000
        else JUndefined)" by (rule details_responseBody)
qed

theorem truncated_bodies_witness:
  "truncatePayload envJson (JStr ''ok'') 4000 = JStr ''ok''
   \<and> truncatePayload envJson (JStr (replicate 4000 CHR ''a'')) 4000 =
       JObj [(''_truncated'', JBool True), (''_originalLength'', JNum 4002),
             (''_preview'', JStr (CHR 0x22 # replicate 3999 CHR ''a''))]
   \<and> truncatePayload envJson (JArr []) 4000 = JObj [(''_error'', JStr ''Could not serialize payload'')]
   \<and> getProp (autoDetails envJson inputBodies) ''responseBody'' = JStr ''ok''
   \<and> getProp (getProp (autoDetails envJson inputBodies) ''requestBody'') ''_originalLength'' = JNum 4002"
proof -
  have s1: "stringify envJson (JStr ''ok'') = Some [CHR 0x22, CHR ''o'', CHR ''k'', CHR 0x22]
            \<and> length [CHR 0x22, CHR ''o'', CHR ''k'', CHR 0x22] \<le> 4000"
    by (simp add: envJson_def)
  have s2: "stringify envJson (JStr (replicate 4000 CHR ''a''))
              = Some ([CHR 0x22] @ replicate 4000 CHR ''a'' @ [CHR 0x22])
            \<and> length ([CHR 0x22] @ replicate 4000 CHR ''a'' @ [CHR 0x22]) > 4000"
    by (simp add: envJson_def)
  have s3: "stringify envJson (JArr []) = None"
    by (simp add: envJson_def)
  have tk: "take 4000 ([CHR 0x22] @ replicate 4000 CHR ''a'' @ [CHR 0x22])
              = CHR 0x22 # replicate 3999 CHR ''a''"
    by (simp add: take_Cons')
  show ?thesis
    using s1 s2 s3 tk
      truncated_bodies [where p = "JStr ''ok''" and e = envJson and input = inputBodies]
      truncated_bodies [where p = "JStr (replicate 4000 CHR ''a'')" and e = envJson and input = inputBodies]
      truncated_bodies [where p = "JArr []" and e = envJson and input = inputBodies]
    by (simp add: inputBodies_def)
qed

section \<open>Properties of the scope resolver\<close>

lemma probeModes_trace:
  "probeModes check pre ms probed =
     (find (\<lambda>m. check (pre @ ''.'' @ modeName m)) ms,
      probed @ map (\<lambda>m. pre @ ''.'' @ modeName m)
                 (takeWhile (\<lambda>m. \<not> check (pre @ ''.'' @ modeName m)) ms)
             @ (case find (\<lambda>m. check (pre @ ''.'' @ modeName m)) ms of
                  Some m \<Rightarrow> [pre @ ''.'' @ modeName m] | None \<Rightarrow> []))"
  by (induction ms arbitrary: probed) (simp_all add: Let_def)

lemma scopeKey_prefix: "(''audit-core.'' @ verb @ ''.scope'') @ ''.'' @ modeName m = scopeKey verb m"
  by (simp add: scopeKey_def)

lemma resolve_unfold:
  "resolveAuditCoreScopeMode check verb =
     (if check (scopeKey verb ModeNone) then (ModeNone, [scopeKey verb ModeNone])
      else if check (scopeKey verb ModeOwn)
        then (ModeOwn, [scopeKey verb ModeNone, scopeKey verb ModeOwn])
      else if check (scopeKey verb ModeLdd)
        then (ModeLdd, [scopeKey verb ModeNone, scopeKey verb ModeOwn, scopeKey verb ModeLdd])
      else if check (scopeKey verb ModeAny)
        then (ModeAny, [scopeKey verb ModeNone, scopeKey verb ModeOwn, scopeKey verb ModeLdd,
                        scopeKey verb ModeAny])
      else (ModeOwn, [scopeKey verb ModeNone, scopeKey verb ModeOwn, scopeKey verb ModeLdd,
                      scopeKey verb ModeAny]))"
  unfolding resolveAuditCoreScopeMode_def Let_def probeModes_trace scopeKey_prefix scopeModes_def
  by simp

text \<open>
  C2, as amended. For every permission check and verb, \<^verbatim>\<open>resolveAuditCoreScopeMode\<close>
  asks for the keys \<open>audit-core.<verb>.scope.<mode>\<close> in the order none, own, ldd, any,
  stops at the first one that is granted and returns its mode; when none is granted it
  has asked all four and returns own. Hence a caller who is granted own and any, and is
  not granted none, resolves to own; and the result is any only when any is granted and
  none, own and ldd are not.
\<close>

theorem resolve_first_granted:
  "resolveAuditCoreScopeMode check verb =
     (if check (scopeKey verb ModeNone) then (ModeNone, [scopeKey verb ModeNone])
      else if check (scopeKey verb ModeOwn)
        then (ModeOwn, [scopeKey verb ModeNone, scopeKey verb ModeOwn])
      else if check (scopeKey verb ModeLdd)
        then (ModeLdd, [scopeKey verb ModeNone, scopeKey verb ModeOwn, scopeKey verb ModeLdd])
      else if check (scopeKey verb ModeAny)
        then (ModeAny, [scopeKey verb ModeNone, scopeKey verb ModeOwn, scopeKey verb ModeLdd,
                        scopeKey verb ModeAny])
      else (ModeOwn, [scopeKey verb ModeNone, scopeKey verb ModeOwn, scopeKey verb ModeLdd,
                      scopeKey verb ModeAny]))
   \<and> (check (scopeKey verb ModeOwn) \<and> check (scopeKey verb ModeAny) \<and> \<not> check (scopeKey verb ModeNone)
        \<longrightarrow> fst (resolveAuditCoreScopeMode check verb) = ModeOwn)
   \<and> (fst (resolveAuditCoreScopeMode check verb) = ModeAny
        \<longrightarrow> check (scopeKey verb ModeAny) \<and> \<not> check (scopeKey verb ModeNone)
            \<and> \<not> check (scopeKey verb ModeOwn) \<and> \<not> check (scopeKey verb ModeLdd))"
proof (intro conjI impI)
  show "resolveAuditCoreScopeMode check verb =
     (if check (scopeKey verb ModeNone) then (ModeNone, [scopeKey verb ModeNone])
      else if check (scopeKey verb ModeOwn)
        then (ModeOwn, [scopeKey verb ModeNone, scopeKey verb ModeOwn])
      else if check (scopeKey verb ModeLdd)
        then (ModeLdd, [scopeKey verb ModeNone, scopeKey verb ModeOwn, scopeKey verb ModeLdd])
      else if check (scopeKey verb ModeAny)
        then (ModeAny, [scopeKey verb ModeNone, scopeKey verb ModeOwn, scopeKey verb ModeLdd,
                        scopeKey verb ModeAny])
      else (ModeOwn, [scopeKey verb ModeNone, scopeKey verb ModeOwn, scopeKey verb ModeLdd,
                      scopeKey verb ModeAny]))"
    by (rule resolve_unfold)
next
  assume "check (scopeKey verb ModeOwn) \<and> check (scopeKey verb ModeAny) \<and> \<not> check (scopeKey verb ModeNone)"
  then show "fst (resolveAuditCoreScopeMode check verb) = ModeOwn"
    by (simp add: resolve_unfold)
next
  assume a: "fst (resolveAuditCoreScopeMode check verb) = ModeAny"
  then show "check (scopeKey verb ModeAny)"
    by (simp add: resolve_unfold split: if_splits)
  from a show "\<not> check (scopeKey verb ModeNone)"
    by (simp add: resolve_unfold split: if_splits)
  from a show "\<not> check (scopeKey verb ModeOwn)"
    by (simp add: resolve_unfold split: if_splits)
  from a show "\<not> check (scopeKey verb ModeLdd)"
    by (simp add: resolve_unfold split: if_splits)
qed

theorem resolve_first_granted_witness:
  "resolveAuditCoreScopeMode grantsOwnAny ''read''
     = (ModeOwn, [''audit-core.read.scope.none'', ''audit-core.read.scope.own''])
   \<and> resolveAuditCoreScopeMode (\<lambda>k. False) ''read''
     = (ModeOwn, [''audit-core.read.scope.none'', ''audit-core.read.scope.own'',
                  ''audit-core.read.scope.ldd'', ''audit-core.read.scope.any''])
   \<and> fst (resolveAuditCoreScopeMode (\<lambda>k. k = ''audit-core.read.scope.any'') ''read'') = ModeAny"
  using resolve_first_granted [of grantsOwnAny "''read''"]
        resolve_first_granted [of "\<lambda>k. False" "''read''"]
        resolve_first_granted [of "\<lambda>k. k = ''audit-core.read.scope.any''" "''read''"]
  by (simp add: scopeKey_def grantsOwnAny_def)

text \<open>
  C2, as stated, fails for a caller who is granted none as well as own and any: the
  first granted mode is none, so the resolved mode is none and not own.
\<close>

theorem resolve_own_any_counterexample:
  "grantsNoneOwnAny (scopeKey ''read'' ModeOwn)
   \<and> grantsNoneOwnAny (scopeKey ''read'' ModeAny)
   \<and> fst (resolveAuditCoreScopeMode grantsNoneOwnAny ''read'') = ModeNone
   \<and> fst (resolveAuditCoreScopeMode grantsNoneOwnAny ''read'') \<noteq> ModeOwn"
  by (simp add: resolve_unfold scopeKey_def grantsNoneOwnAny_def)

section \<open>Properties of the entity extraction\<close>

lemma split_no_sep: "c \<notin> set s \<Longrightarrow> split c s = [s]"
  by (induction s) auto

lemma split_append_sep: "c \<notin> set s \<Longrightarrow> split c (s @ c # r) = s # split c r"
  by (induction s) auto

lemma split_joinSlash:
  "list_all isSegment segs \<Longrightarrow> segs \<noteq> [] \<Longrightarrow> split CHR ''/'' (joinSlash segs) = segs"
proof (induction segs rule: joinSlash.induct)
  case 1
  then show ?case by simp
next
  case (2 s)
  then show ?case by (simp add: isSegment_def split_no_sep)
next
  case (3 s t ts)
  then show ?case by (simp add: isSegment_def split_append_sep)
qed

lemma segmentsOf_api_join:
  assumes "list_all isSegment segs"
  shows "segmentsOf (''/api/'' @ joinSlash segs) = segs"
proof (cases "segs = []")
  case True
  then show ?thesis by (simp add: segmentsOf_def stripApiPrefix_def)
next
  case False
  have "filter (\<lambda>s. s \<noteq> []) segs = segs"
    using assms by (induction segs) (auto simp: isSegment_def)
  with False assms show ?thesis
    by (simp add: segmentsOf_def stripApiPrefix_def split_joinSlash)
qed

lemma nth_last_drop:
  "rest \<noteq> [] \<Longrightarrow> rest ! (length rest - Suc 0) = last rest"
  by (simp add: last_conv_nth)

lemma two_last: "2 \<le> length rest \<Longrightarrow> \<exists>xs a b. rest = xs @ [a, b]"
proof -
  assume a: "2 \<le> length rest"
  then obtain ys b where r: "rest = ys @ [b]"
    by (cases rest rule: rev_cases) auto
  with a obtain xs a where "ys = xs @ [a]"
    by (cases ys rule: rev_cases) auto
  with r show ?thesis by simp
qed

lemma nth_last_butlast:
  assumes "2 \<le> length rest"
  shows "rest ! (length rest - 2) = last (butlast rest)"
proof -
  from two_last [OF assms] obtain xs a b where "rest = xs @ [a, b]" by blast
  then show ?thesis by (simp add: nth_append butlast_append)
qed

lemma extract_by_segments:
  "extractEntityFromPath p =
     (case segmentsOf p of
        [] \<Rightarrow> (''unknown'', None)
      | pack # rest \<Rightarrow>
          if rest = [] then (pack, None)
          else if looksLikeId (last rest)
            then (if butlast rest = [] then pack else singularize (last (butlast rest)),
                  Some (last rest))
          else (singularize (last rest), None))"
proof (cases "segmentsOf p")
  case Nil
  then show ?thesis
    by (simp add: extractEntityFromPath_def segmentsOf_def Let_def)
next
  case (Cons pack rest)
  show ?thesis
  proof (cases "rest = []")
    case True
    with Cons show ?thesis
      by (simp add: extractEntityFromPath_def segmentsOf_def Let_def)
  next
    case False
    have two: "(2 \<le> length rest) = (butlast rest \<noteq> [])"
      by (cases rest) (auto simp: Suc_le_eq)
    show ?thesis
    proof (cases "2 \<le> length rest")
      case True
      with Cons False two show ?thesis
        unfolding extractEntityFromPath_def Let_def segmentsOf_def [symmetric] looksLikeId_def
        by (simp add: nth_last_drop nth_last_butlast)
    next
      case b: False
      with False have "length rest = 1" by (cases rest) (auto simp: Suc_le_eq)
      then obtain x where "rest = [x]"
        by (cases rest) auto
      with Cons show ?thesis
        unfolding extractEntityFromPath_def Let_def segmentsOf_def [symmetric] looksLikeId_def
        by (simp add: nth_last_drop)
    qed
  qed
qed

lemma endsWith_iff: "endsWith x suf = (\<exists>w. x = w @ suf)"
proof
  assume "endsWith x suf"
  then have "x = take (length x - length suf) x @ suf"
    by (metis append_take_drop_id endsWith_def)
  then show "\<exists>w. x = w @ suf" ..
next
  assume "\<exists>w. x = w @ suf"
  then show "endsWith x suf" by (auto simp: endsWith_def)
qed

lemma endsWith_append [simp]: "endsWith (w @ suf) suf"
  by (simp add: endsWith_def)

lemma sliceOff_append: "sliceOff (w @ suf) (length suf) = w"
  by (simp add: sliceOff_def)

lemma singularize_ies: "singularize (w @ ''ies'') = w @ ''y''"
proof -
  have "sliceOff (w @ ''ies'') 3 = w" by (simp add: sliceOff_def)
  then show ?thesis by (simp add: singularize_def)
qed

lemma endsWith_last3:
  "endsWith (w @ [a, b, c]) [a', b', c'] = (a = a' \<and> b = b' \<and> c = c')"
  by (simp add: endsWith_def)

lemma singularize_es:
  assumes "c \<in> set ''sxz''"
  shows "singularize (w @ c # ''es'') = w @ [c]"
proof -
  have s: "sliceOff (w @ c # ''es'') 2 = w @ [c]"
    by (simp add: sliceOff_def)
  have e: "endsWith (w @ [c, CHR ''e'', CHR ''s'']) [c, CHR ''e'', CHR ''s'']"
    by (simp add: endsWith_last3)
  have n: "\<not> endsWith (w @ [c, CHR ''e'', CHR ''s'']) ''ies''"
    using assms by (auto simp: endsWith_last3)
  from assms s e n show ?thesis
    by (auto simp: singularize_def)
qed

lemma singularize_s:
  assumes "endsWith x ''s''" and "\<not> endsWith x ''ss''"
    and "\<not> endsWith x ''ies''" and "\<not> endsWith x ''ses''" and "\<not> endsWith x ''xes''"
    and "\<not> endsWith x ''zes''"
  shows "singularize x = butlast x"
  using assms by (simp add: singularize_def sliceOff_def butlast_conv_take)

lemma endsWith_trans: "endsWith x (a @ b) \<Longrightarrow> endsWith x b"
  by (auto simp: endsWith_iff)

lemma singularize_other:
  assumes "\<not> endsWith x ''s'' \<or> endsWith x ''ss''"
  shows "singularize x = x"
proof -
  have a: "endsWith x [p, q, CHR ''s''] \<Longrightarrow> endsWith x ''s''" for p q
    using endsWith_trans [of x "[p, q]" "''s''"] by simp
  have b: "endsWith x ''ss'' \<Longrightarrow> \<not> endsWith x [p, CHR ''e'', CHR ''s'']" for p
    by (auto simp: endsWith_iff)
  from assms a b show ?thesis
    by (auto simp: singularize_def)
qed

lemma extract_id_path:
  assumes "list_all isSegment (pack # mid @ [k, i])" and "looksLikeId i"
  shows "extractEntityFromPath (''/api/'' @ joinSlash (pack # mid @ [k, i])) = (singularize k, Some i)"
proof -
  have "segmentsOf (''/api/'' @ joinSlash (pack # mid @ [k, i])) = pack # mid @ [k, i]"
    using assms(1) by (rule segmentsOf_api_join)
  then show ?thesis
    unfolding extract_by_segments using assms(2) by (simp add: butlast_append)
qed

lemmas path_eval_defs =
  extractEntityFromPath_def stripApiPrefix_def uuidPattern_def numericPattern_def
  singularize_def endsWith_def sliceOff_def isDigit_def isHexDigit_def hexGroup_def

text \<open>
  C5. For every path, \<^verbatim>\<open>extractEntityFromPath\<close> goes by the segments left after a
  leading \<^verbatim>\<open>/api/\<close>: the first is the pack name and is dropped; with nothing after
  it the pack name is the kind and the id is null; when the last segment matches the UUID
  pattern or is purely numeric it is the id, and the kind is the singularized segment
  before it, or the pack name when none precedes it; otherwise the kind is the
  singularized last segment and the id is null. (With no segment at all the kind is
  \<open>unknown\<close>.) The segments of \<^verbatim>\<open>/api/\<close> followed by segments joined with slashes are
  those segments, so a path \<^verbatim>\<open>/api/<pack>/.../<resources>/<id>\<close> yields the singularized
  resources and the id. \<^verbatim>\<open>singularize\<close> turns a trailing \<open>ies\<close> into \<open>y\<close>, takes two
  characters off a trailing \<open>ses\<close>, \<open>xes\<close> or \<open>zes\<close>, takes a trailing \<open>s\<close> off a
  word that does not end in \<open>ss\<close>, and leaves any other word as it is. The three paths
  of the specification give contact/123, entry/456 and item/null.
\<close>

theorem extractEntityFromPath_spec:
  "extractEntityFromPath p =
     (case segmentsOf p of
        [] \<Rightarrow> (''unknown'', None)
      | pack # rest \<Rightarrow>
          if rest = [] then (pack, None)
          else if looksLikeId (last rest)
            then (if butlast rest = [] then pack else singularize (last (butlast rest)),
                  Some (last rest))
          else (singularize (last rest), None))
   \<and> (list_all isSegment segs \<longrightarrow> segmentsOf (''/api/'' @ joinSlash segs) = segs)
   \<and> (list_all isSegment (pack # mid @ [k, i]) \<and> looksLikeId i \<longrightarrow>
        extractEntityFromPath (''/api/'' @ joinSlash (pack # mid @ [k, i])) = (singularize k, Some i))
   \<and> singularize (w @ ''ies'') = w @ ''y''
   \<and> (c \<in> set ''sxz'' \<longrightarrow> singularize (w @ c # ''es'') = w @ [c])
   \<and> (endsWith x ''s'' \<and> \<not> endsWith x ''ss'' \<and> \<not> endsWith x ''ies'' \<and> \<not> endsWith x ''ses''
        \<and> \<not> endsWith x ''xes'' \<and> \<not> endsWith x ''zes'' \<longrightarrow> singularize x = butlast x)
   \<and> (\<not> endsWith x ''s'' \<or> endsWith x ''ss'' \<longrightarrow> singularize x = x)
   \<and> endsWith x suf = (\<exists>v. x = v @ suf)
   \<and> extractEntityFromPath ''/api/crm/contacts/123'' = (''contact'', Some ''123'')
   \<and> extractEntityFromPath ''/api/forms/xyz/entries/456'' = (''entry'', Some ''456'')
   \<and> extractEntityFromPath ''/api/vault/folders/abc/items'' = (''item'', None)"
proof (intro conjI impI)
  show "extractEntityFromPath p =
     (case segmentsOf p of
        [] \<Rightarrow> (''unknown'', None)
      | pack # rest \<Rightarrow>
          if rest = [] then (pack, None)
          else if looksLikeId (last rest)
            then (if butlast rest = [] then pack else singularize (last (butlast rest)),
                  Some (last rest))
          else (singularize (last rest), None))"
    by (rule extract_by_segments)
next
  assume "list_all isSegment segs"
  then show "segmentsOf (''/api/'' @ joinSlash segs) = segs" by (rule segmentsOf_api_join)
next
  assume "list_all isSegment (pack # mid @ [k, i]) \<and> looksLikeId i"
  then show "extractEntityFromPath (''/api/'' @ joinSlash (pack # mid @ [k, i])) = (singularize k, Some i)"
    using extract_id_path by blast
next
  show "singularize (w @ ''ies'') = w @ ''y''" by (rule singularize_ies)
next
  assume "c \<in> set ''sxz''"
  then show "singularize (w @ c # ''es'') = w @ [c]" by (rule singularize_es)
next
  assume "endsWith x ''s'' \<and> \<not> endsWith x ''ss'' \<and> \<not> endsWith x ''ies'' \<and> \<not> endsWith x ''ses''
        \<and> \<not> endsWith x ''xes'' \<and> \<not> endsWith x ''zes''"
  then show "singularize x = butlast x" by (simp add: singularize_s)
next
  assume "\<not> endsWith x ''s'' \<or> endsWith x ''ss''"
  then show "singularize x = x" by (rule singularize_other)
next
  show "endsWith x suf = (\<exists>v. x = v @ suf)" by (rule endsWith_iff)
next
  show "extractEntityFromPath ''/api/crm/contacts/123'' = (''contact'', Some ''123'')"
    by (simp add: path_eval_defs)
next
  show "extractEntityFromPath ''/api/forms/xyz/entries/456'' = (''entry'', Some ''456'')"
    by (simp add: path_eval_defs)
next
  show "extractEntityFromPath ''/api/vault/folders/abc/items'' = (''item'', None)"
    by (simp add: path_eval_defs)
qed

theorem extractEntityFromPath_spec_witness:
  "segmentsOf ''/api/crm/companies/123e4567-e89b-12d3-a456-426614174000''
     = [''crm'', ''companies'', ''123e4567-e89b-12d3-a456-426614174000'']
   \<and> extractEntityFromPath ''/api/crm/companies/123e4567-e89b-12d3-a456-426614174000''
     = (''company'', Some ''123e4567-e89b-12d3-a456-426614174000'')
   \<and> extractEntityFromPath ''/api/crm/77'' = (''crm'', Some ''77'')
   \<and> extractEntityFromPath ''/api/crm'' = (''crm'', None)
   \<and> singularize ''boxes'' = ''box''
   \<and> singularize ''cats'' = ''cat''
   \<and> singularize ''class'' = ''class''"
proof -
  have seg: "list_all isSegment [''crm'', ''companies'', ''123e4567-e89b-12d3-a456-426614174000'']"
    by (simp add: isSegment_def)
  have idl: "looksLikeId ''123e4567-e89b-12d3-a456-426614174000''"
    by (simp add: looksLikeId_def uuidPattern_def hexGroup_def isHexDigit_def)
  have j: "''/api/'' @ joinSlash [''crm'', ''companies'', ''123e4567-e89b-12d3-a456-426614174000'']
             = ''/api/crm/companies/123e4567-e89b-12d3-a456-426614174000''"
    by simp
  have c: "CHR ''x'' \<in> set ''sxz''" by simp
  have s: "endsWith ''cats'' ''s'' \<and> \<not> endsWith ''cats'' ''ss'' \<and> \<not> endsWith ''cats'' ''ies''
           \<and> \<not> endsWith ''cats'' ''ses'' \<and> \<not> endsWith ''cats'' ''xes'' \<and> \<not> endsWith ''cats'' ''zes''"
    by (simp add: endsWith_def)
  have o: "endsWith ''class'' ''ss''" by (simp add: endsWith_def)
  have n: "segmentsOf ''/api/crm/77'' = [''crm'', ''77''] \<and> looksLikeId ''77''
           \<and> segmentsOf ''/api/crm'' = [''crm'']"
    by (simp add: segmentsOf_def stripApiPrefix_def looksLikeId_def numericPattern_def isDigit_def)
  note t1 = extractEntityFromPath_spec
      [where segs = "[''crm'', ''companies'', ''123e4567-e89b-12d3-a456-426614174000'']"
         and pack = "''crm''" and mid = "[]" and k = "''companies''"
         and i = "''123e4567-e89b-12d3-a456-426614174000''"
         and w = "''compan''" and c = "CHR ''x''" and x = "''cats''" and p = "''/api/crm/77''"]
  note t2 = extractEntityFromPath_spec
      [where w = "''bo''" and c = "CHR ''x''" and x = "''class''" and p = "''/api/crm''"]
  show ?thesis
    using seg idl j c s o n t1 t2
    by simp
qed

section \<open>Properties of the scope predicate\<close>

lemma set_pushNew:
  "set (pushNew v ids) = set ids \<union> (case v of Some x \<Rightarrow> if x \<noteq> [] then {x} else {} | None \<Rightarrow> {})"
  by (auto simp: pushNew_def split: option.splits)

lemma set_divisionIds_collected:
  "set (divisionIds (foldl collectRow acc rows))
     = set (divisionIds acc) \<union> {x. x \<noteq> [] \<and> (\<exists>r\<in>set rows. divisionId r = Some x)}"
  by (induction rows arbitrary: acc)
     (auto simp: collectRow_def set_pushNew split: option.splits if_splits)

lemma set_departmentIds_collected:
  "set (departmentIds (foldl collectRow acc rows))
     = set (departmentIds acc) \<union> {x. x \<noteq> [] \<and> (\<exists>r\<in>set rows. departmentId r = Some x)}"
  by (induction rows arbitrary: acc)
     (auto simp: collectRow_def set_pushNew split: option.splits if_splits)

lemma set_locationIds_collected:
  "set (locationIds (foldl collectRow acc rows))
     = set (locationIds acc) \<union> {x. x \<noteq> [] \<and> (\<exists>r\<in>set rows. locationId r = Some x)}"
  by (induction rows arbitrary: acc)
     (auto simp: collectRow_def set_pushNew split: option.splits if_splits)

lemma set_fetched:
  "set (idsOf d (fetchUserOrgScopeIds tbl sub))
     = {x. x \<noteq> [] \<and> (\<exists>r\<in>set tbl. userKey r = sub \<and> dimId d r = Some x)}"
  by (cases d)
     (auto simp: fetchUserOrgScopeIds_def idsOf_def set_divisionIds_collected
        set_departmentIds_collected set_locationIds_collected)

lemma sqlOr_None: "(sqlOr ps = None) = (ps = [])"
  by (induction ps rule: sqlOr.induct) (auto split: option.splits)

lemma sqlOr_holds:
  "sqlOr ps = Some c \<Longrightarrow> holds tbl ev c = list_ex (holds tbl ev) ps"
  by (induction ps arbitrary: c rule: sqlOr.induct) (auto simp: sqlOr_None split: option.splits)

lemma holds_exists_empty: "holds tbl ev (ExistsAssignmentIn d []) = False"
  by (simp add: list_ex_iff split: option.splits)

lemma holds_lddParts:
  "list_ex (holds tbl ev) (lddParts s)
     = (holds tbl ev (ExistsAssignmentIn Division (divisionIds s))
        \<or> holds tbl ev (ExistsAssignmentIn Department (departmentIds s))
        \<or> holds tbl ev (ExistsAssignmentIn Location (locationIds s)))"
  by (cases "divisionIds s = []"; cases "departmentIds s = []"; cases "locationIds s = []")
     (simp_all add: lddParts_def holds_exists_empty del: holds.simps)

lemma holds_exists_fetched:
  "holds tbl ev (ExistsAssignmentIn d (idsOf d (fetchUserOrgScopeIds tbl sub)))
     = (\<exists>ra\<in>set tbl. \<exists>rc\<in>set tbl. Some (userKey ra) = actorId ev \<and> userKey rc = sub
          \<and> (case dimId d ra of Some x \<Rightarrow> x \<noteq> [] \<and> dimId d rc = Some x | None \<Rightarrow> False))"
  unfolding holds.simps list_ex_iff set_fetched
  by (auto split: option.splits)

lemma ex_or_distrib3:
  "(A \<or> (\<exists>ra\<in>T. Q ra \<and> (\<exists>rc\<in>T. R rc \<and> D ra rc))
      \<or> (\<exists>ra\<in>T. Q ra \<and> (\<exists>rc\<in>T. R rc \<and> E ra rc))
      \<or> (\<exists>ra\<in>T. Q ra \<and> (\<exists>rc\<in>T. R rc \<and> L ra rc)))
   = (A \<or> (\<exists>ra\<in>T. Q ra \<and> (\<exists>rc\<in>T. R rc \<and> (D ra rc \<or> E ra rc \<or> L ra rc))))"
  by blast

lemma ldd_parts_shape:
  "scopeWhereParts tbl ModeLdd sub =
     (let own = (if sub \<noteq> [] then EqActorId sub else SqlFalse) in
      case sqlOr (lddParts (fetchUserOrgScopeIds tbl sub)) of
        Some l \<Rightarrow> [Or own l] | None \<Rightarrow> [own])"
  by (auto simp: scopeWhereParts_def Let_def sqlOr_None split: option.splits)

lemma selects_ldd:
  assumes "sub \<noteq> []"
  shows "selects tbl (scopeWhereParts tbl ModeLdd sub) ev
     = (actorId ev = Some sub
        \<or> list_ex (\<lambda>ra. Some (userKey ra) = actorId ev
                        \<and> list_ex (\<lambda>rc. userKey rc = sub \<and> sharesAssignment ra rc) tbl) tbl)"
proof -
  have l: "selects tbl (scopeWhereParts tbl ModeLdd sub) ev
           = (actorId ev = Some sub
              \<or> list_ex (holds tbl ev) (lddParts (fetchUserOrgScopeIds tbl sub)))"
  proof (cases "sqlOr (lddParts (fetchUserOrgScopeIds tbl sub))")
    case None
    then have "lddParts (fetchUserOrgScopeIds tbl sub) = []" by (simp add: sqlOr_None)
    with None assms show ?thesis by (simp add: ldd_parts_shape selects_def)
  next
    case (Some c)
    with assms show ?thesis
      by (simp add: ldd_parts_shape selects_def sqlOr_holds [OF Some])
  qed
  have f: "holds tbl ev (ExistsAssignmentIn Division (divisionIds (fetchUserOrgScopeIds tbl sub)))
             = (\<exists>ra\<in>set tbl. \<exists>rc\<in>set tbl. Some (userKey ra) = actorId ev \<and> userKey rc = sub
                 \<and> (case divisionId ra of Some x \<Rightarrow> x \<noteq> [] \<and> divisionId rc = Some x | None \<Rightarrow> False))"
          "holds tbl ev (ExistsAssignmentIn Department (departmentIds (fetchUserOrgScopeIds tbl sub)))
             = (\<exists>ra\<in>set tbl. \<exists>rc\<in>set tbl. Some (userKey ra) = actorId ev \<and> userKey rc = sub
                 \<and> (case departmentId ra of Some x \<Rightarrow> x \<noteq> [] \<and> departmentId rc = Some x | None \<Rightarrow> False))"
          "holds tbl ev (ExistsAssignmentIn Location (locationIds (fetchUserOrgScopeIds tbl sub)))
             = (\<exists>ra\<in>set tbl. \<exists>rc\<in>set tbl. Some (userKey ra) = actorId ev \<and> userKey rc = sub
                 \<and> (case locationId ra of Some x \<Rightarrow> x \<noteq> [] \<and> locationId rc = Some x | None \<Rightarrow> False))"
    using holds_exists_fetched [of tbl ev Division sub] holds_exists_fetched [of tbl ev Department sub]
      holds_exists_fetched [of tbl ev Location sub]
    by (simp_all add: idsOf_def del: holds.simps cong: option.case_cong)
  show ?thesis
    unfolding l holds_lddParts f
    by (simp add: list_ex_iff sharesAssignment_def ex_or_distrib3 cong: option.case_cong)
qed

lemma no_assignments_own:
  assumes "hasNoAssignments tbl sub"
  shows "scopeWhereParts tbl ModeLdd sub = scopeWhereParts tbl ModeOwn sub"
proof -
  have "set (idsOf d (fetchUserOrgScopeIds tbl sub)) = {}" for d
    using assms unfolding set_fetched
    by (cases d) (auto simp: hasNoAssignments_def list_all_iff hasText_def)
  from this [of Division] this [of Department] this [of Location]
  have "lddParts (fetchUserOrgScopeIds tbl sub) = []"
    by (simp add: lddParts_def idsOf_def)
  then show ?thesis
    by (simp add: ldd_parts_shape scopeWhereParts_def)
qed

lemma actor_eventBy: "actorId (eventBy a) = Some a"
  by (simp add: eventBy_def writeAuditEventRow_def)

text \<open>
  C7. For a caller with an id (the handler answers 401 without one), the conditions the
  handler builds under the mode ldd select exactly the events whose \<open>actorId\<close> is the
  caller's id, or whose actor has a row in the assignment table that shares a division,
  a department or a location with a row of the caller. For a caller none of whose rows
  names a division, a department or a location, the conditions are those of the mode
  own: the single condition that \<open>actorId\<close> is the caller's id.
\<close>

theorem ldd_scope:
  assumes "sub \<noteq> []"
  shows "selects tbl (scopeWhereParts tbl ModeLdd sub) ev
           = (actorId ev = Some sub
              \<or> list_ex (\<lambda>ra. Some (userKey ra) = actorId ev
                              \<and> list_ex (\<lambda>rc. userKey rc = sub \<and> sharesAssignment ra rc) tbl) tbl)
       \<and> (hasNoAssignments tbl sub \<longrightarrow>
            scopeWhereParts tbl ModeLdd sub = scopeWhereParts tbl ModeOwn sub
          \<and> scopeWhereParts tbl ModeLdd sub = [EqActorId sub]
          \<and> selects tbl (scopeWhereParts tbl ModeLdd sub) ev = (actorId ev = Some sub))"
proof (intro conjI impI)
  show "selects tbl (scopeWhereParts tbl ModeLdd sub) ev
           = (actorId ev = Some sub
              \<or> list_ex (\<lambda>ra. Some (userKey ra) = actorId ev
                              \<and> list_ex (\<lambda>rc. userKey rc = sub \<and> sharesAssignment ra rc) tbl) tbl)"
    using assms by (rule selects_ldd)
next
  assume n: "hasNoAssignments tbl sub"
  then show o: "scopeWhereParts tbl ModeLdd sub = scopeWhereParts tbl ModeOwn sub"
    by (rule no_assignments_own)
  then show p: "scopeWhereParts tbl ModeLdd sub = [EqActorId sub]"
    using assms by (simp add: scopeWhereParts_def)
  show "selects tbl (scopeWhereParts tbl ModeLdd sub) ev = (actorId ev = Some sub)"
    unfolding p by (simp add: selects_def)
qed

theorem ldd_scope_witness:
  "selects orgTable (scopeWhereParts orgTable ModeLdd ''u1'') (eventBy ''u1'')
   \<and> selects orgTable (scopeWhereParts orgTable ModeLdd ''u1'') (eventBy ''u2'')
   \<and> \<not> selects orgTable (scopeWhereParts orgTable ModeLdd ''u1'') (eventBy ''u3'')
   \<and> scopeWhereParts orgTable ModeLdd ''u9'' = [EqActorId ''u9'']
   \<and> selects orgTable (scopeWhereParts orgTable ModeLdd ''u9'') (eventBy ''u9'')
   \<and> \<not> selects orgTable (scopeWhereParts orgTable ModeLdd ''u9'') (eventBy ''u1'')"
proof -
  have a: "''u1'' \<noteq> []" "''u9'' \<noteq> []" by simp_all
  have n: "hasNoAssignments orgTable ''u9''"
    by (simp add: hasNoAssignments_def orgTable_def hasText_def)
  have s2: "list_ex (\<lambda>ra. Some (userKey ra) = Some ''u2''
                \<and> list_ex (\<lambda>rc. userKey rc = ''u1'' \<and> sharesAssignment ra rc) orgTable) orgTable"
    by (simp add: orgTable_def sharesAssignment_def)
  have s3: "\<not> list_ex (\<lambda>ra. Some (userKey ra) = Some ''u3''
                \<and> list_ex (\<lambda>rc. userKey rc = ''u1'' \<and> sharesAssignment ra rc) orgTable) orgTable"
    by (simp add: orgTable_def sharesAssignment_def)
  have w1: "selects orgTable (scopeWhereParts orgTable ModeLdd ''u1'') (eventBy ''u1'')"
    using ldd_scope [OF a(1), THEN conjunct1, of orgTable "eventBy ''u1''"]
    by (simp add: actor_eventBy)
  have w2: "selects orgTable (scopeWhereParts orgTable ModeLdd ''u1'') (eventBy ''u2'')"
    using ldd_scope [OF a(1), THEN conjunct1, of orgTable "eventBy ''u2''"] s2
    by (simp add: actor_eventBy)
  have w3: "\<not> selects orgTable (scopeWhereParts orgTable ModeLdd ''u1'') (eventBy ''u3'')"
    using ldd_scope [OF a(1), THEN conjunct1, of orgTable "eventBy ''u3''"] s3
    by (simp add: actor_eventBy)
  have w4: "scopeWhereParts orgTable ModeLdd ''u9'' = [EqActorId ''u9'']"
    using ldd_scope [OF a(2), THEN conjunct2, of orgTable "eventBy ''u9''"] n by blast
  have w5: "selects orgTable (scopeWhereParts orgTable ModeLdd ''u9'') (eventBy ''u9'')"
    and w6: "\<not> selects orgTable (scopeWhereParts orgTable ModeLdd ''u9'') (eventBy ''u1'')"
    unfolding w4 by (simp_all add: selects_def actor_eventBy)
  from w1 w2 w3 w4 w5 w6 show ?thesis by blast
qed

end
